theory Spec2Isabelle
  imports Complex_Main
begin

section \<open>JavaScript values\<close>

text \<open>
  The component handles numbers, strings, \<open>null\<close> and \<open>undefined\<close>. Finite numbers are
  modelled as rationals (every finite double is one); rounding of doubles and the sign of
  zero are outside the model. \<open>NaN\<close> and the infinities occur only as results of the
  conversion \<open>ToNumber\<close>, which the relational operators apply to their operands.
\<close>

datatype jsval = JUndefined | JNull | JNum rat | JStr string

datatype jsnum = NaN | NegInf | Fin rat | PosInf

datatype error = TypeError

definition is_digit :: "char \<Rightarrow> bool" where
  "is_digit c = ((48::nat) \<le> of_char c \<and> of_char c \<le> (57::nat))"

definition digit_val :: "char \<Rightarrow> nat" where
  "digit_val c = of_char c - 48"

definition digits_val :: "string \<Rightarrow> nat" where
  "digits_val ds = foldl (\<lambda>a c. 10 * a + digit_val c) 0 ds"

definition is_hex_digit :: "char \<Rightarrow> bool" where
  "is_hex_digit c = (c \<in> set ''0123456789abcdefABCDEF'')"

definition hex_val :: "char \<Rightarrow> nat" where
  "hex_val c =
     (if c \<in> set ''aA'' then 10 else if c \<in> set ''bB'' then 11 else if c \<in> set ''cC'' then 12
      else if c \<in> set ''dD'' then 13 else if c \<in> set ''eE'' then 14
      else if c \<in> set ''fF'' then 15 else digit_val c)"

definition radix_val :: "nat \<Rightarrow> string \<Rightarrow> nat" where
  "radix_val b ds = foldl (\<lambda>a c. b * a + hex_val c) 0 ds"

definition is_space :: "char \<Rightarrow> bool" where
  "is_space c = (c \<in> set [CHR '' '', CHR 0x09, CHR 0x0A, CHR 0x0B, CHR 0x0C, CHR 0x0D])"

definition trim :: "string \<Rightarrow> string" where
  "trim s = rev (dropWhile is_space (rev (dropWhile is_space s)))"

definition scale10 :: "rat \<Rightarrow> int \<Rightarrow> rat" where
  "scale10 m e = (if 0 \<le> e then m * 10 ^ nat e else m / 10 ^ nat (- e))"

text \<open>The exponent part of a decimal literal: absent, or \<open>e\<close>/\<open>E\<close>, an optional sign and digits.\<close>

definition exponent_part :: "string \<Rightarrow> int option" where
  "exponent_part r =
     (case r of
        [] \<Rightarrow> Some 0
      | c # ds \<Rightarrow>
          if c \<noteq> CHR ''e'' \<and> c \<noteq> CHR ''E'' then None
          else (case ds of
                  [] \<Rightarrow> None
                | d # es \<Rightarrow>
                    if d = CHR ''+'' then
                      (if es \<noteq> [] \<and> list_all is_digit es then Some (int (digits_val es)) else None)
                    else if d = CHR ''-'' then
                      (if es \<noteq> [] \<and> list_all is_digit es then Some (- int (digits_val es)) else None)
                    else if list_all is_digit ds then Some (int (digits_val ds)) else None))"

text \<open>An unsigned decimal literal that spans the whole string: \<open>12\<close>, \<open>12.\<close>, \<open>.5\<close>, \<open>1.5e3\<close>.\<close>

definition str_unsigned_decimal :: "string \<Rightarrow> rat option" where
  "str_unsigned_decimal s =
     (let ip = takeWhile is_digit s;
          r1 = dropWhile is_digit s;
          has_dot = (r1 \<noteq> [] \<and> hd r1 = CHR ''.'');
          fp = (if has_dot then takeWhile is_digit (tl r1) else []);
          r2 = (if has_dot then dropWhile is_digit (tl r1) else r1)
      in if ip = [] \<and> fp = [] then None
         else (case exponent_part r2 of
                 None \<Rightarrow> None
               | Some e \<Rightarrow>
                   Some (scale10 (of_nat (digits_val ip)
                                  + of_nat (digits_val fp) / 10 ^ length fp) e)))"

definition non_decimal_literal :: "string \<Rightarrow> nat option" where
  "non_decimal_literal s =
     (case s of
        z # x # ds \<Rightarrow>
          if z \<noteq> CHR ''0'' \<or> ds = [] then None
          else if x \<in> set ''xX'' \<and> list_all is_hex_digit ds then Some (radix_val 16 ds)
          else if x \<in> set ''oO'' \<and> list_all (\<lambda>c. c \<in> set ''01234567'') ds then Some (radix_val 8 ds)
          else if x \<in> set ''bB'' \<and> list_all (\<lambda>c. c \<in> set ''01'') ds then Some (radix_val 2 ds)
          else None
      | _ \<Rightarrow> None)"

text \<open>
  \<open>ToNumber\<close> on a string: surrounding (ASCII) white space is dropped, the empty string is 0, then
  a signed decimal literal, a signed \<open>Infinity\<close> or an unsigned hexadecimal, octal or binary
  literal; anything else is \<open>NaN\<close>.
\<close>

definition string_to_number :: "string \<Rightarrow> jsnum" where
  "string_to_number s =
     (let t = trim s in
      if t = [] then Fin 0
      else if t = ''Infinity'' \<or> t = ''+Infinity'' then PosInf
      else if t = ''-Infinity'' then NegInf
      else (case non_decimal_literal t of
              Some n \<Rightarrow> Fin (of_nat n)
            | None \<Rightarrow>
                if hd t = CHR ''-'' then
                  (case str_unsigned_decimal (tl t) of None \<Rightarrow> NaN | Some q \<Rightarrow> Fin (- q))
                else if hd t = CHR ''+'' then
                  (case str_unsigned_decimal (tl t) of None \<Rightarrow> NaN | Some q \<Rightarrow> Fin q)
                else (case str_unsigned_decimal t of None \<Rightarrow> NaN | Some q \<Rightarrow> Fin q)))"

fun to_number :: "jsval \<Rightarrow> jsnum" where
  "to_number JUndefined = NaN"
| "to_number JNull = Fin 0"
| "to_number (JNum n) = Fin n"
| "to_number (JStr s) = string_to_number s"

text \<open>
  The relational operators with a Number on the right, as the component uses them
  (\<open>value >= this.max\<close>, \<open>value <= this.min\<close>, \<open>value < 0\<close>): the left operand is
  converted by \<open>ToNumber\<close>, and every comparison with \<open>NaN\<close> is false.
\<close>

fun js_ge :: "jsval \<Rightarrow> rat \<Rightarrow> bool" where
  "js_ge v n = (case to_number v of NaN \<Rightarrow> False | NegInf \<Rightarrow> False | Fin x \<Rightarrow> n \<le> x | PosInf \<Rightarrow> True)"

fun js_le :: "jsval \<Rightarrow> rat \<Rightarrow> bool" where
  "js_le v n = (case to_number v of NaN \<Rightarrow> False | NegInf \<Rightarrow> True | Fin x \<Rightarrow> x \<le> n | PosInf \<Rightarrow> False)"

fun js_lt :: "jsval \<Rightarrow> rat \<Rightarrow> bool" where
  "js_lt v n = (case to_number v of NaN \<Rightarrow> False | NegInf \<Rightarrow> True | Fin x \<Rightarrow> x < n | PosInf \<Rightarrow> False)"

text \<open>\<open>String.prototype.toLowerCase\<close> on ASCII text.\<close>

definition lower_char :: "char \<Rightarrow> char" where
  "lower_char c =
     (if (65::nat) \<le> of_char c \<and> of_char c \<le> (90::nat) then char_of (of_char c + (32::nat)) else c)"

definition toLowerCase :: "string \<Rightarrow> string" where
  "toLowerCase s = map lower_char s"

text \<open>
  \<open>x.length\<close> used as a condition: the length of a string, \<open>undefined\<close> (falsy) on a
  number, a \<open>TypeError\<close> on \<open>null\<close> and \<open>undefined\<close>.
\<close>

fun length_truthy :: "jsval \<Rightarrow> error + bool" where
  "length_truthy (JStr s) = Inr (s \<noteq> [])"
| "length_truthy (JNum n) = Inr False"
| "length_truthy JNull = Inl TypeError"
| "length_truthy JUndefined = Inl TypeError"

section \<open>The money library the component consumes\<close>

text \<open>
  The component imports \<open>accounting-js\<close> and calls three of its functions. They are
  parameters of the model: every operation of the component takes the library as its
  first argument.
\<close>

record money_options =
  opt_symbol :: string
  opt_format :: string
  opt_precision :: nat
  opt_decimal :: string
  opt_thousand :: string

record accounting =
  formatMoney :: "rat \<Rightarrow> money_options \<Rightarrow> string"
  unformat_lib :: "jsval \<Rightarrow> string \<Rightarrow> rat"
  toFixed :: "rat \<Rightarrow> nat \<Rightarrow> string"

section \<open>Props and state of the component\<close>

text \<open>
  The props with their declared types. \<open>max\<close>, \<open>min\<close>, \<open>minus\<close> and \<open>value\<close> carry the
  suffix \<open>_prop\<close>. An override that is not passed is \<open>undefined\<close>, here \<open>None\<close>.
\<close>

record props =
  currency :: string
  max_prop :: rat
  min_prop :: rat
  minus_prop :: bool
  emptyValue :: jsval
  precision :: nat
  separator :: string
  thousandSeparator :: "string option"
  decimalSeparator :: "string option"
  outputType :: string
  value_prop :: jsval
  currencySymbolPosition :: string

record dom_event =
  target_value :: string

datatype emission = Blur dom_event | Input jsval

text \<open>
  The state: \<open>amount\<close> is the display bound to the input element by \<open>v-model\<close>;
  \<open>emitted\<close> lists what \<open>$emit\<close> sent to the owner, oldest first.
\<close>

record component =
  amount :: jsval
  emitted :: "emission list"

definition emit :: "emission \<Rightarrow> component \<Rightarrow> component" where
  "emit e st = st\<lparr>emitted := emitted st @ [e]\<rparr>"

section \<open>Computed properties (both files)\<close>

definition decimalSeparatorSymbol :: "props \<Rightarrow> string" where
  "decimalSeparatorSymbol p =
     (case decimalSeparator p of
        Some d \<Rightarrow> d
      | None \<Rightarrow> if separator p = '','' then ''.'' else '','')"

definition thousandSeparatorSymbol :: "props \<Rightarrow> string" where
  "thousandSeparatorSymbol p =
     (case thousandSeparator p of
        Some t \<Rightarrow> t
      | None \<Rightarrow>
          if separator p = ''.'' then ''.''
          else if separator p = ''space'' then '' ''
          else '','')"

definition symbolPosition :: "props \<Rightarrow> string" where
  "symbolPosition p =
     (if currency p = [] then ''%v''
      else if currencySymbolPosition p = ''suffix'' then ''%v %s'' else ''%s %v'')"

definition money_opts :: "props \<Rightarrow> money_options" where
  "money_opts p =
     \<lparr>opt_symbol = currency p, opt_format = symbolPosition p, opt_precision = precision p,
      opt_decimal = decimalSeparatorSymbol p, opt_thousand = thousandSeparatorSymbol p\<rparr>"

section \<open>Methods shared by both files\<close>

definition unformat :: "accounting \<Rightarrow> props \<Rightarrow> jsval \<Rightarrow> rat" where
  "unformat lib p v =
     (let toUnformat = (if v = JStr [] then emptyValue p else v)
      in unformat_lib lib toUnformat (decimalSeparatorSymbol p))"

text \<open>
  The running variable \<open>processedValue\<close> of \<open>process\<close> (\<open>src/vue-numeric.vue\<close>) and of
  \<open>format\<close> (the second file) after its three conditional assignments. The tests read
  the raw argument, not the unformatted number.
\<close>

definition processedValue :: "accounting \<Rightarrow> props \<Rightarrow> jsval \<Rightarrow> rat" where
  "processedValue lib p v =
     (let pv0 = unformat lib p v;
          pv1 = (if js_ge v (max_prop p) then max_prop p else pv0);
          pv2 = (if js_le v (min_prop p) then min_prop p else pv1);
          pv3 = (if \<not> minus_prop p \<and> js_lt v 0
                 then (if 0 \<le> min_prop p then min_prop p else 0) else pv2)
      in pv3)"

section \<open>Methods, watchers and hooks of \<open>src/vue-numeric.vue\<close>\<close>

definition format :: "accounting \<Rightarrow> props \<Rightarrow> rat \<Rightarrow> string" where
  "format lib p n = formatMoney lib n (money_opts p)"

definition process :: "accounting \<Rightarrow> props \<Rightarrow> jsval \<Rightarrow> string" where
  "process lib p v = format lib p (processedValue lib p v)"

definition update :: "accounting \<Rightarrow> props \<Rightarrow> jsval \<Rightarrow> component \<Rightarrow> component" where
  "update lib p v st =
     (let emitValue = unformat lib p v in
      if emitValue = 0 then (emit (Input (JStr [])) st)\<lparr>amount := JStr []\<rparr>
      else
        let fixedValue = toFixed lib emitValue (precision p);
            output = (if toLowerCase (outputType p) = ''string''
                      then JStr fixedValue else JNum emitValue)
        in emit (Input output) st)"

definition onBlurHandler :: "accounting \<Rightarrow> props \<Rightarrow> dom_event \<Rightarrow> component \<Rightarrow> component" where
  "onBlurHandler lib p evt st =
     (let st1 = emit (Blur evt) st in
      if target_value evt \<noteq> [] \<and> unformat lib p (amount st1) = 0
      then emit (Input (JNum 0)) (st1\<lparr>amount := JNum 0\<rparr>)
      else
        let st2 = st1\<lparr>amount := JStr (process lib p (amount st1))\<rparr>
        in update lib p (amount st2) st2)"

definition watch_value :: "accounting \<Rightarrow> props \<Rightarrow> jsval \<Rightarrow> component \<Rightarrow> component" where
  "watch_value lib p newValue st =
     (if newValue \<noteq> amount st then st\<lparr>amount := JStr (process lib p newValue)\<rparr> else st)"

definition watch_separator :: "accounting \<Rightarrow> props \<Rightarrow> component \<Rightarrow> component" where
  "watch_separator lib p st = st\<lparr>amount := JStr (process lib p (value_prop p))\<rparr>"

definition watch_currency :: "accounting \<Rightarrow> props \<Rightarrow> component \<Rightarrow> component" where
  "watch_currency lib p st = st\<lparr>amount := JStr (process lib p (value_prop p))\<rparr>"

definition watch_precision :: "accounting \<Rightarrow> props \<Rightarrow> component \<Rightarrow> component" where
  "watch_precision lib p st = st\<lparr>amount := JStr (process lib p (value_prop p))\<rparr>"

definition mounted :: "accounting \<Rightarrow> props \<Rightarrow> component \<Rightarrow> component" where
  "mounted lib p st = st\<lparr>amount := JStr (process lib p (value_prop p))\<rparr>"

section \<open>Methods, watchers and hooks of the second file (\<open>part_000\<close>)\<close>

text \<open>
  The second file has no \<open>process\<close>: its \<open>format\<close> returns the empty string and \<open>null\<close>
  unchanged and clamps everything else itself. Its names carry the suffix \<open>_p0\<close>.
  Its \<open>update\<close> reads \<open>this.amount.length\<close>, which throws when the display is \<open>null\<close>:
  the result is then the error with the state reached, else the new state.
\<close>

definition format_p0 :: "accounting \<Rightarrow> props \<Rightarrow> jsval \<Rightarrow> jsval" where
  "format_p0 lib p v =
     (if v = JStr [] \<or> v = JNull then v
      else JStr (formatMoney lib (processedValue lib p v) (money_opts p)))"

definition update_p0 ::
  "accounting \<Rightarrow> props \<Rightarrow> component \<Rightarrow> (error \<times> component) + component" where
  "update_p0 lib p st =
     (let emitValue = unformat lib p (amount st) in
      if emitValue = 0 then
        (case length_truthy (amount st) of
           Inl e \<Rightarrow> Inl (e, st)
         | Inr True \<Rightarrow> Inr (emit (Input (JNum 0)) (st\<lparr>amount := format_p0 lib p (JNum 0)\<rparr>))
         | Inr False \<Rightarrow> Inr (emit (Input (JStr [])) (st\<lparr>amount := JStr []\<rparr>)))
      else
        let st1 = st\<lparr>amount := format_p0 lib p (amount st)\<rparr>;
            fixedValue = toFixed lib emitValue (precision p);
            output = (if toLowerCase (outputType p) = ''string''
                      then JStr fixedValue else JNum emitValue)
        in Inr (emit (Input output) st1))"

definition onBlurHandler_p0 ::
  "accounting \<Rightarrow> props \<Rightarrow> dom_event \<Rightarrow> component \<Rightarrow> (error \<times> component) + component" where
  "onBlurHandler_p0 lib p evt st = update_p0 lib p (emit (Blur evt) st)"

definition watch_value_p0 :: "accounting \<Rightarrow> props \<Rightarrow> jsval \<Rightarrow> component \<Rightarrow> component" where
  "watch_value_p0 lib p newValue st =
     (if newValue \<noteq> amount st then st\<lparr>amount := format_p0 lib p newValue\<rparr> else st)"

definition watch_separator_p0 :: "accounting \<Rightarrow> props \<Rightarrow> component \<Rightarrow> component" where
  "watch_separator_p0 lib p st = st\<lparr>amount := format_p0 lib p (value_prop p)\<rparr>"

definition watch_currency_p0 :: "accounting \<Rightarrow> props \<Rightarrow> component \<Rightarrow> component" where
  "watch_currency_p0 lib p st = st\<lparr>amount := format_p0 lib p (value_prop p)\<rparr>"

definition watch_precision_p0 :: "accounting \<Rightarrow> props \<Rightarrow> component \<Rightarrow> component" where
  "watch_precision_p0 lib p st = st\<lparr>amount := format_p0 lib p (value_prop p)\<rparr>"

definition mounted_p0 :: "accounting \<Rightarrow> props \<Rightarrow> component \<Rightarrow> component" where
  "mounted_p0 lib p st = st\<lparr>amount := format_p0 lib p (value_prop p)\<rparr>"

section \<open>A reference implementation of the library\<close>

text \<open>
  Modelled from the spec: the money-formatting and parsing primitive (the package
  \<open>accounting-js\<close>) is imported by the component and its code is not part of the
  repository. The spec gives its interface as
  \<open>formatMoney(value, {symbol, format, precision, decimal, thousand})\<close>,
  \<open>unformat(value, decimalSeparator)\<close> and \<open>toFixed(value, precision)\<close>, and its
  behaviour as: text is stripped of the symbol and the thousand separator, the decimal
  separator is read as the decimal point, the rest is parsed as a number, and text with
  no parseable digits gives 0; a formatted number has exactly \<open>precision\<close> fractional
  digits, its integer digits are grouped in threes by the thousand separator, and the
  symbol is placed as the format string says. \<open>unformat\<close> is told the decimal separator
  only, so stripping removes every character that is not a digit, a minus sign or part of
  the decimal separator. Where the spec is silent the model follows the package: a number
  is unformatted to itself, rounding is to the nearest with halves upwards, and a negative
  value gets a minus sign directly before the number. Bracketed negatives and the special
  patterns of replacement strings are left out.
\<close>

text \<open>
  \<open>String.prototype.replace\<close> with a string pattern: the first occurrence only; the
  empty pattern matches at the start.
\<close>

fun replace_first :: "string \<Rightarrow> string \<Rightarrow> string \<Rightarrow> string" where
  "replace_first pat rep [] = (if pat = [] then rep else [])"
| "replace_first pat rep (c # cs) =
     (if take (length pat) (c # cs) = pat then rep @ drop (length pat) (c # cs)
      else c # replace_first pat rep cs)"

text \<open>
  Modelled from the spec: parsing the remainder as a number takes the longest prefix that
  is a decimal numeral, as \<open>parseFloat\<close> does; \<open>None\<close> is \<open>NaN\<close>.
\<close>

definition parse_float :: "string \<Rightarrow> rat option" where
  "parse_float s =
     (let ip = takeWhile is_digit s;
          r = dropWhile is_digit s;
          fp = (if r \<noteq> [] \<and> hd r = CHR ''.'' then takeWhile is_digit (tl r) else [])
      in if ip = [] \<and> fp = [] then None
         else Some (of_nat (digits_val ip) + of_nat (digits_val fp) / 10 ^ length fp))"

text \<open>
  Modelled from the spec: the characters that survive the stripping are the digits, the
  minus sign and the characters of the decimal separator.
\<close>

definition kept :: "string \<Rightarrow> char \<Rightarrow> bool" where
  "kept dec c = (is_digit c \<or> c = CHR ''-'' \<or> c \<in> set dec)"

text \<open>
  Modelled from the spec: \<open>unformat(value, decimalSeparator)\<close>. A number is returned as
  it is. Other values are taken as text and stripped, the first decimal separator becomes
  the decimal point, an odd number of minus signs makes the result negative, and a
  remainder that does not parse gives 0.
\<close>

definition acc_unformat :: "jsval \<Rightarrow> string \<Rightarrow> rat" where
  "acc_unformat v dec =
     (case v of
        JNum n \<Rightarrow> n
      | _ \<Rightarrow>
          (let txt = (case v of JStr s \<Rightarrow> s | JNull \<Rightarrow> ''null'' | _ \<Rightarrow> ''undefined'');
               stripped = filter (kept dec) txt;
               std = replace_first dec ''.'' stripped;
               negative = odd (length (filter (\<lambda>c. c = CHR ''-'') std));
               body = filter (\<lambda>c. c \<noteq> CHR ''-'') std
           in case parse_float body of
                None \<Rightarrow> 0
              | Some q \<Rightarrow> if negative then - q else q))"

definition digit_char :: "nat \<Rightarrow> char" where
  "digit_char d = char_of (48 + d mod 10)"

fun digits :: "nat \<Rightarrow> string" where
  "digits n = (if n < 10 then [digit_char n] else digits (n div 10) @ [digit_char (n mod 10)])"

declare digits.simps [simp del]

definition pad_zeros :: "nat \<Rightarrow> string \<Rightarrow> string" where
  "pad_zeros p ds = replicate (p - length ds) (CHR ''0'') @ ds"

text \<open>
  Modelled from the spec: the value times \<open>10 ^ p\<close>, rounded to the nearest integer,
  halves upwards.
\<close>

definition round_scaled :: "rat \<Rightarrow> nat \<Rightarrow> int" where
  "round_scaled x p = \<lfloor>x * 10 ^ p + 1 / 2\<rfloor>"

text \<open>
  Modelled from the spec: \<open>toFixed(value, precision)\<close>, the rounded value in decimal
  notation with exactly \<open>precision\<close> fractional digits.
\<close>

definition acc_toFixed :: "rat \<Rightarrow> nat \<Rightarrow> string" where
  "acc_toFixed x p =
     (let scaled = round_scaled x p;
          m = nat \<bar>scaled\<bar>
      in (if scaled < 0 then ''-'' else [])
         @ digits (m div 10 ^ p)
         @ (if 0 < p then ''.'' @ pad_zeros p (digits (m mod 10 ^ p)) else []))"

fun chunks3 :: "string \<Rightarrow> string list" where
  "chunks3 (a # b # c # d # rest) = [a, b, c] # chunks3 (d # rest)"
| "chunks3 xs = [xs]"

fun join :: "string \<Rightarrow> string list \<Rightarrow> string" where
  "join t [] = []"
| "join t [x] = x"
| "join t (x # y # ys) = x @ t @ join t (y # ys)"

text \<open>
  Modelled from the spec: the integer digits in groups of three counted from the right,
  with the thousand separator between the groups.
\<close>

definition group3 :: "string \<Rightarrow> string \<Rightarrow> string" where
  "group3 t ds =
     (let m = (if 3 < length ds then length ds mod 3 else 0)
      in (if m \<noteq> 0 then take m ds @ t else []) @ join t (chunks3 (drop m ds)))"

text \<open>
  Modelled from the spec: the magnitude of the value with grouped integer digits and, for a
  positive precision, the decimal separator and exactly \<open>precision\<close> fractional digits.
\<close>

definition acc_formatNumber :: "rat \<Rightarrow> money_options \<Rightarrow> string" where
  "acc_formatNumber x opts =
     (let p = opt_precision opts;
          m = nat (round_scaled \<bar>x\<bar> p)
      in group3 (opt_thousand opts) (digits (m div 10 ^ p))
         @ (if 0 < p then opt_decimal opts @ pad_zeros p (digits (m mod 10 ^ p)) else []))"

text \<open>
  Modelled from the spec: \<open>formatMoney(value, options)\<close>. In the format string \<open>%s\<close> is
  replaced by the symbol and \<open>%v\<close> by the formatted number; for a negative value a minus
  sign stands directly before the number.
\<close>

definition acc_formatMoney :: "rat \<Rightarrow> money_options \<Rightarrow> string" where
  "acc_formatMoney x opts =
     (let fmt = opt_format opts;
          useFormat = (if x < 0 then replace_first ''%v'' ''-%v'' (replace_first ''-'' [] fmt)
                       else fmt)
      in replace_first ''%v'' (acc_formatNumber x opts)
           (replace_first ''%s'' (opt_symbol opts) useFormat))"

text \<open>Modelled from the spec: the three functions as the library the component imports.\<close>

definition accounting_js :: accounting where
  "accounting_js =
     \<lparr>formatMoney = acc_formatMoney, unformat_lib = acc_unformat, toFixed = acc_toFixed\<rparr>"

text \<open>The defaults of the props, with the value 0.\<close>

definition default_props :: props where
  "default_props =
     \<lparr>currency = [], max_prop = 9007199254740991, min_prop = - 9007199254740991,
      minus_prop = False, emptyValue = JStr [], precision = 0, separator = '','',
      thousandSeparator = None, decimalSeparator = None, outputType = ''Number'',
      value_prop = JNum 0, currencySymbolPosition = ''prefix''\<rparr>"

section \<open>Definitions that follow the specification\<close>

text \<open>
  The clamp as the specification words it: three checks in the order max, min, sign, each
  overwriting the running result, which starts at \<open>start\<close>.
\<close>

definition clamp_spec :: "rat \<Rightarrow> rat \<Rightarrow> bool \<Rightarrow> rat \<Rightarrow> rat \<Rightarrow> rat" where
  "clamp_spec lo hi minusAllowed start v =
     (let r1 = (if hi \<le> v then hi else start);
          r2 = (if v \<le> lo then lo else r1);
          r3 = (if \<not> minusAllowed \<and> v < 0 then (if 0 \<le> lo then lo else 0) else r2)
      in r3)"

text \<open>
  The configurations for which formatting can be undone: the decimal separator has a
  character that is neither a digit nor a minus sign; the thousand separator and the
  currency symbol have no character that survives the stripping; and with a symbol, whose
  format holds a space, the decimal separator has no space.
\<close>

definition round_trip_config :: "props \<Rightarrow> bool" where
  "round_trip_config p =
     ((\<exists>c\<in>set (decimalSeparatorSymbol p). \<not> is_digit c \<and> c \<noteq> CHR ''-'')
      \<and> (\<forall>c\<in>set (thousandSeparatorSymbol p). \<not> kept (decimalSeparatorSymbol p) c)
      \<and> (\<forall>c\<in>set (currency p). \<not> kept (decimalSeparatorSymbol p) c)
      \<and> (currency p \<noteq> [] \<longrightarrow> CHR '' '' \<notin> set (decimalSeparatorSymbol p)))"

section \<open>Resolving the separators\<close>

text \<open>
  C7. The resolved decimal separator is the \<open>decimalSeparator\<close> override when one is
  passed, else \<open>.\<close> when the shorthand \<open>separator\<close> is \<open>,\<close>, else \<open>,\<close>. The resolved thousand
  separator is the \<open>thousandSeparator\<close> override when one is passed, else \<open>.\<close> when the
  shorthand is \<open>.\<close>, else one space when the shorthand is \<open>space\<close>, else \<open>,\<close>.
\<close>

theorem resolved_separators:
  "(decimalSeparator p = Some d \<longrightarrow> decimalSeparatorSymbol p = d)
   \<and> (decimalSeparator p = None \<and> separator p = '','' \<longrightarrow> decimalSeparatorSymbol p = ''.'')
   \<and> (decimalSeparator p = None \<and> separator p \<noteq> '','' \<longrightarrow> decimalSeparatorSymbol p = '','')
   \<and> (thousandSeparator p = Some t \<longrightarrow> thousandSeparatorSymbol p = t)
   \<and> (thousandSeparator p = None \<and> separator p = ''.'' \<longrightarrow> thousandSeparatorSymbol p = ''.'')
   \<and> (thousandSeparator p = None \<and> separator p = ''space'' \<longrightarrow> thousandSeparatorSymbol p = '' '')
   \<and> (thousandSeparator p = None \<and> separator p \<noteq> ''.'' \<and> separator p \<noteq> ''space''
        \<longrightarrow> thousandSeparatorSymbol p = '','')"
  by (simp add: decimalSeparatorSymbol_def thousandSeparatorSymbol_def)

theorem resolved_separators_witness:
  "decimalSeparatorSymbol (default_props\<lparr>decimalSeparator := Some ''x''\<rparr>) = ''x''
   \<and> decimalSeparatorSymbol default_props = ''.''
   \<and> decimalSeparatorSymbol (default_props\<lparr>separator := ''space''\<rparr>) = '',''
   \<and> thousandSeparatorSymbol (default_props\<lparr>thousandSeparator := Some ''_''\<rparr>) = ''_''
   \<and> thousandSeparatorSymbol (default_props\<lparr>separator := ''.''\<rparr>) = ''.''
   \<and> thousandSeparatorSymbol (default_props\<lparr>separator := ''space''\<rparr>) = '' ''
   \<and> thousandSeparatorSymbol default_props = '',''"
  using resolved_separators [of "default_props\<lparr>decimalSeparator := Some ''x''\<rparr>" "''x''" "''_''"]
    resolved_separators [of default_props "''x''" "''_''"]
    resolved_separators [of "default_props\<lparr>separator := ''space''\<rparr>" "''x''" "''_''"]
    resolved_separators [of "default_props\<lparr>thousandSeparator := Some ''_''\<rparr>" "''x''" "''_''"]
    resolved_separators [of "default_props\<lparr>separator := ''.''\<rparr>" "''x''" "''_''"]
  by (simp add: default_props_def)

text \<open>
  C8 claims that the two resolved separators are distinct for every props input. An
  override is used as it is, so a \<open>decimalSeparator\<close> of \<open>,\<close> with the default shorthand
  resolves both separators to \<open>,\<close>.
\<close>

theorem separators_equal_counterexample:
  "decimalSeparatorSymbol (default_props\<lparr>decimalSeparator := Some '',''\<rparr>)
   = thousandSeparatorSymbol (default_props\<lparr>decimalSeparator := Some '',''\<rparr>)"
  by (simp add: decimalSeparatorSymbol_def thousandSeparatorSymbol_def default_props_def)

text \<open>
  C8, amended. When neither override is passed, the resolved separators are distinct
  exactly when the shorthand is one of \<open>,\<close>, \<open>.\<close> and \<open>space\<close>.
\<close>

theorem separators_distinct_without_overrides:
  "decimalSeparator p = None \<Longrightarrow> thousandSeparator p = None \<Longrightarrow>
   (decimalSeparatorSymbol p \<noteq> thousandSeparatorSymbol p)
   = (separator p = '','' \<or> separator p = ''.'' \<or> separator p = ''space'')"
  by (auto simp add: decimalSeparatorSymbol_def thousandSeparatorSymbol_def)

theorem separators_distinct_without_overrides_witness:
  "decimalSeparator (default_props\<lparr>separator := ''space''\<rparr>) = None
   \<and> thousandSeparator (default_props\<lparr>separator := ''space''\<rparr>) = None
   \<and> separator (default_props\<lparr>separator := ''space''\<rparr>) = ''space''
   \<and> decimalSeparatorSymbol (default_props\<lparr>separator := ''space''\<rparr>)
      \<noteq> thousandSeparatorSymbol (default_props\<lparr>separator := ''space''\<rparr>)"
  using separators_distinct_without_overrides [of "default_props\<lparr>separator := ''space''\<rparr>"]
  by (simp add: default_props_def)

section \<open>Clamping\<close>

text \<open>
  C1. For a numeric value \<open>v\<close> the running result of \<open>process\<close> (and of the second file's
  \<open>format\<close>) is that of the three checks max, min, sign made in this order, each
  overwriting the result: the sign check decides when it applies, else the min check, else
  the max check, else the unformatted value stays. With \<open>min = 0\<close>, \<open>max = 100\<close> and
  \<open>minus\<close> off, \<open>-5\<close> gives 0 and 150 gives 100; with \<open>min = 10\<close>, \<open>-5\<close> gives 10.
\<close>

theorem clamp_order:
  "processedValue lib p (JNum v)
     = clamp_spec (min_prop p) (max_prop p) (minus_prop p) (unformat lib p (JNum v)) v
   \<and> processedValue lib p (JNum v)
     = (if \<not> minus_prop p \<and> v < 0 then (if 0 \<le> min_prop p then min_prop p else 0)
        else if v \<le> min_prop p then min_prop p
        else if max_prop p \<le> v then max_prop p
        else unformat lib p (JNum v))
   \<and> process lib p (JNum v) = format lib p (processedValue lib p (JNum v))
   \<and> format_p0 lib p (JNum v) = JStr (formatMoney lib (processedValue lib p (JNum v)) (money_opts p))
   \<and> processedValue lib (p\<lparr>min_prop := 0, max_prop := 100, minus_prop := False\<rparr>) (JNum (- 5)) = 0
   \<and> processedValue lib (p\<lparr>min_prop := 0, max_prop := 100, minus_prop := False\<rparr>) (JNum 150) = 100
   \<and> processedValue lib (p\<lparr>min_prop := 10, max_prop := 100, minus_prop := False\<rparr>) (JNum (- 5)) = 10"
  by (simp add: processedValue_def clamp_spec_def process_def format_p0_def Let_def)

theorem clamp_order_witness:
  "processedValue accounting_js (default_props\<lparr>min_prop := 0, max_prop := 100\<rparr>) (JNum 150) = 100
   \<and> processedValue accounting_js (default_props\<lparr>min_prop := 0, max_prop := 100\<rparr>) (JNum (- 5)) = 0
   \<and> processedValue accounting_js (default_props\<lparr>min_prop := 10, max_prop := 100\<rparr>) (JNum (- 5)) = 10
   \<and> processedValue accounting_js (default_props\<lparr>min_prop := 0, max_prop := 100\<rparr>) (JNum 42) = 42"
  using clamp_order [of accounting_js "default_props\<lparr>min_prop := 0, max_prop := 100\<rparr>" 150]
    clamp_order [of accounting_js "default_props\<lparr>min_prop := 0, max_prop := 100\<rparr>" "- 5"]
    clamp_order [of accounting_js "default_props\<lparr>min_prop := 10, max_prop := 100\<rparr>" "- 5"]
    clamp_order [of accounting_js "default_props\<lparr>min_prop := 0, max_prop := 100\<rparr>" 42]
  by (simp add: default_props_def unformat_def accounting_js_def acc_unformat_def)

section \<open>Lenient parsing\<close>

lemma replace_first_set: "set (replace_first pat rep s) \<subseteq> set s \<union> set rep"
proof (induction s)
  case Nil
  show ?case by auto
next
  case (Cons c cs)
  show ?case
  proof (cases "take (length pat) (c # cs) = pat")
    case True
    have "set (drop (length pat) (c # cs)) \<subseteq> set (c # cs)"
      by (rule set_drop_subset)
    then have "set (rep @ drop (length pat) (c # cs)) \<subseteq> set (c # cs) \<union> set rep"
      by auto
    moreover have "replace_first pat rep (c # cs) = rep @ drop (length pat) (c # cs)"
      using True by (simp del: take_Suc_Cons drop_Suc_Cons)
    ultimately show ?thesis by (simp only:)
  next
    case False
    then have "replace_first pat rep (c # cs) = c # replace_first pat rep cs"
      by (simp del: take_Suc_Cons drop_Suc_Cons)
    then show ?thesis using Cons by auto
  qed
qed

lemma parse_float_no_digit:
  assumes "\<forall>c\<in>set s. \<not> is_digit c"
  shows "parse_float s = None"
proof -
  have a: "takeWhile is_digit s = []"
    using assms by (cases s) simp_all
  have b: "dropWhile is_digit s = s"
    using assms by (cases s) simp_all
  have "\<forall>c\<in>set (tl s). \<not> is_digit c"
    using assms by (cases s) simp_all
  then have c: "takeWhile is_digit (tl s) = []"
    by (cases "tl s") simp_all
  show ?thesis
    by (simp add: parse_float_def a b c)
qed

lemma acc_unformat_no_digit:
  assumes "\<forall>c\<in>set s. \<not> is_digit c"
  shows "acc_unformat (JStr s) d = 0"
proof -
  define stripped where "stripped = filter (kept d) s"
  define std where "std = replace_first d ''.'' stripped"
  define body where "body = filter (\<lambda>c. c \<noteq> CHR ''-'') std"
  have dot: "\<not> is_digit (CHR ''.'')"
    by (simp add: is_digit_def)
  have "set std \<subseteq> set stripped \<union> set ''.''"
    unfolding std_def by (rule replace_first_set)
  moreover have "\<forall>c\<in>set stripped. \<not> is_digit c"
    using assms by (simp add: stripped_def)
  ultimately have "\<forall>c\<in>set std. \<not> is_digit c"
    using dot by auto
  then have "\<forall>c\<in>set body. \<not> is_digit c"
    by (simp add: body_def)
  then have "parse_float body = None"
    by (rule parse_float_no_digit)
  then show ?thesis
    by (simp add: acc_unformat_def stripped_def [symmetric] std_def [symmetric] body_def [symmetric])
qed

text \<open>
  C9. \<open>unformat\<close> hands the library the configured \<open>emptyValue\<close> in place of its input
  exactly when the input is the empty string. With the reference library, whenever the
  text that is parsed (the input, or \<open>emptyValue\<close> for the empty input) has no digit the
  result is 0: an unparseable remainder, which \<open>parseFloat\<close> reads as \<open>NaN\<close>, falls back
  to 0. So \<open>unformat("abc")\<close> is 0, and \<open>unformat("")\<close> with \<open>emptyValue = 5\<close> is 5.
\<close>

theorem unformat_lenient:
  "unformat lib p (JStr []) = unformat_lib lib (emptyValue p) (decimalSeparatorSymbol p)
   \<and> (v \<noteq> JStr [] \<longrightarrow> unformat lib p v = unformat_lib lib v (decimalSeparatorSymbol p))
   \<and> ((if v = JStr [] then emptyValue p else v) = JStr s \<and> (\<forall>c\<in>set s. \<not> is_digit c)
        \<longrightarrow> unformat accounting_js p v = 0)
   \<and> unformat accounting_js p (JStr ''abc'') = 0
   \<and> unformat accounting_js (p\<lparr>emptyValue := JNum 5\<rparr>) (JStr []) = 5"
proof (intro conjI impI)
  show "unformat lib p (JStr []) = unformat_lib lib (emptyValue p) (decimalSeparatorSymbol p)"
    by (simp add: unformat_def)
  show "unformat lib p v = unformat_lib lib v (decimalSeparatorSymbol p)" if "v \<noteq> JStr []"
    using that by (simp add: unformat_def)
  show "unformat accounting_js p v = 0"
    if h: "(if v = JStr [] then emptyValue p else v) = JStr s \<and> (\<forall>c\<in>set s. \<not> is_digit c)"
  proof -
    have "acc_unformat (JStr s) (decimalSeparatorSymbol p) = 0"
      using h by (intro acc_unformat_no_digit) simp
    then show ?thesis
      using h by (simp add: unformat_def accounting_js_def)
  qed
  have "\<forall>c\<in>set ''abc''. \<not> is_digit c"
    by (simp add: is_digit_def)
  then have "acc_unformat (JStr ''abc'') (decimalSeparatorSymbol p) = 0"
    by (rule acc_unformat_no_digit)
  then show "unformat accounting_js p (JStr ''abc'') = 0"
    by (simp add: unformat_def accounting_js_def)
  show "unformat accounting_js (p\<lparr>emptyValue := JNum 5\<rparr>) (JStr []) = 5"
    by (simp add: unformat_def accounting_js_def acc_unformat_def)
qed

theorem unformat_lenient_witness:
  "list_all (\<lambda>c. \<not> is_digit c) ''$ -,''
   \<and> unformat accounting_js default_props (JStr ''$ -,'') = 0
   \<and> unformat accounting_js (default_props\<lparr>emptyValue := JStr ''n/a''\<rparr>) (JStr []) = 0
   \<and> unformat accounting_js default_props (JStr ''12abc'') = 12"
proof -
  have a: "\<forall>c\<in>set ''$ -,''. \<not> is_digit c"
    by (simp add: is_digit_def)
  have b: "\<forall>c\<in>set ''n/a''. \<not> is_digit c"
    by (simp add: is_digit_def)
  have "unformat accounting_js default_props (JStr ''$ -,'') = 0"
    using unformat_lenient [of accounting_js default_props "JStr ''$ -,''" "''$ -,''"] a by simp
  moreover have "unformat accounting_js (default_props\<lparr>emptyValue := JStr ''n/a''\<rparr>) (JStr []) = 0"
    using unformat_lenient [of accounting_js "default_props\<lparr>emptyValue := JStr ''n/a''\<rparr>" "JStr []" "''n/a''"] b
    by simp
  moreover have "unformat accounting_js default_props (JStr ''12abc'') = 12"
    by code_simp
  moreover have "list_all (\<lambda>c. \<not> is_digit c) ''$ -,''"
    using a by (simp only: list_all_iff)
  ultimately show ?thesis by simp
qed

section \<open>Committing on blur\<close>

text \<open>
  What the two blur handlers do with a display that is not empty and unformats to zero:
  \<open>src/vue-numeric.vue\<close> stores the number 0 itself, the second file stores \<open>format(0)\<close>;
  both emit 0.
\<close>

lemma onBlurHandler_zero:
  "target_value evt \<noteq> [] \<Longrightarrow> unformat lib p (amount st) = 0 \<Longrightarrow>
   onBlurHandler lib p evt st
   = st\<lparr>amount := JNum 0, emitted := emitted st @ [Blur evt, Input (JNum 0)]\<rparr>"
  by (simp add: onBlurHandler_def emit_def)

lemma onBlurHandler_p0_zero:
  "amount st = JStr s \<Longrightarrow> s \<noteq> [] \<Longrightarrow> unformat lib p (JStr s) = 0 \<Longrightarrow>
   onBlurHandler_p0 lib p evt st
   = Inr (st\<lparr>amount := format_p0 lib p (JNum 0),
              emitted := emitted st @ [Blur evt, Input (JNum 0)]\<rparr>)"
  by (simp add: onBlurHandler_p0_def update_p0_def emit_def)

text \<open>
  C2 says that on blur a display text that is not empty and unformats to zero is replaced
  by the formatted rendering of 0, and that 0 is emitted. The second file does so. In
  \<open>src/vue-numeric.vue\<close> the handler assigns the number 0 to the display: with
  \<open>precision = 2\<close> and the text \<open>abc\<close> the display becomes \<open>0\<close>, where the formatted
  rendering is \<open>0.00\<close>.
\<close>

theorem blur_zero_display_unformatted:
  "onBlurHandler accounting_js (default_props\<lparr>precision := 2\<rparr>) \<lparr>target_value = ''abc''\<rparr>
       \<lparr>amount = JStr ''abc'', emitted = []\<rparr>
     = \<lparr>amount = JNum 0, emitted = [Blur \<lparr>target_value = ''abc''\<rparr>, Input (JNum 0)]\<rparr>
   \<and> format accounting_js (default_props\<lparr>precision := 2\<rparr>) 0 = ''0.00''
   \<and> onBlurHandler_p0 accounting_js (default_props\<lparr>precision := 2\<rparr>) \<lparr>target_value = ''abc''\<rparr>
       \<lparr>amount = JStr ''abc'', emitted = []\<rparr>
     = Inr \<lparr>amount = JStr ''0.00'',
            emitted = [Blur \<lparr>target_value = ''abc''\<rparr>, Input (JNum 0)]\<rparr>"
  by code_simp

text \<open>
  What the second file does on blur with an empty display: the display stays empty; the
  empty string is emitted when \<open>emptyValue\<close> unformats to zero, else the unformatted
  \<open>emptyValue\<close> in the configured output type.
\<close>

lemma onBlurHandler_p0_empty:
  "amount st = JStr [] \<Longrightarrow>
   onBlurHandler_p0 lib p evt st
   = Inr (st\<lparr>amount := JStr [],
              emitted := emitted st @
                [Blur evt,
                 Input (if unformat lib p (JStr []) = 0 then JStr []
                        else if toLowerCase (outputType p) = ''string''
                        then JStr (toFixed lib (unformat lib p (JStr [])) (precision p))
                        else JNum (unformat lib p (JStr [])))]\<rparr>)"
  by (simp add: onBlurHandler_p0_def update_p0_def emit_def format_p0_def Let_def)

text \<open>
  In \<open>src/vue-numeric.vue\<close> the blur handler first replaces the empty display by
  \<open>process\<close> of it: with \<open>emptyValue = 5\<close> the display becomes \<open>5\<close> and 5 is emitted.
\<close>

lemma onBlurHandler_empty_five:
  "onBlurHandler accounting_js (default_props\<lparr>emptyValue := JNum 5\<rparr>) \<lparr>target_value = []\<rparr>
       \<lparr>amount = JStr [], emitted = []\<rparr>
     = \<lparr>amount = JStr ''5'', emitted = [Blur \<lparr>target_value = []\<rparr>, Input (JNum 5)]\<rparr>"
  by code_simp

text \<open>
  C3 says that on blur with an empty display the configured \<open>emptyValue\<close> is emitted, for
  every \<open>emptyValue\<close>, and the display is set to the empty string. With \<open>emptyValue = 5\<close>
  the second file emits 5. With \<open>emptyValue = 0\<close> both files emit the empty string, not 0:
  the substituted value is falsy and takes the branch of the empty field.
\<close>

theorem blur_empty_zero_emptyValue:
  "onBlurHandler_p0 accounting_js (default_props\<lparr>emptyValue := JNum 0\<rparr>) \<lparr>target_value = []\<rparr>
       \<lparr>amount = JStr [], emitted = []\<rparr>
     = Inr \<lparr>amount = JStr [], emitted = [Blur \<lparr>target_value = []\<rparr>, Input (JStr [])]\<rparr>
   \<and> onBlurHandler accounting_js (default_props\<lparr>emptyValue := JNum 0\<rparr>) \<lparr>target_value = []\<rparr>
       \<lparr>amount = JStr [], emitted = []\<rparr>
     = \<lparr>amount = JStr [], emitted = [Blur \<lparr>target_value = []\<rparr>, Input (JStr [])]\<rparr>
   \<and> onBlurHandler_p0 accounting_js (default_props\<lparr>emptyValue := JNum 5\<rparr>) \<lparr>target_value = []\<rparr>
       \<lparr>amount = JStr [], emitted = []\<rparr>
     = Inr \<lparr>amount = JStr [], emitted = [Blur \<lparr>target_value = []\<rparr>, Input (JNum 5)]\<rparr>"
  by code_simp

text \<open>
  C4. In the second file, a blur on a display whose unformatted value is truthy emits that
  unformatted value (as a number, or as its fixed-decimal text when \<open>outputType\<close> is
  \<open>string\<close>) and replaces the display by \<open>format\<close> of the old display, which clamps. The
  emitted value does not depend on \<open>min\<close>, \<open>max\<close> or \<open>minus\<close>. So there are a display
  text and bounds for which the emitted value is above \<open>max\<close> while the display shows the
  rendering of \<open>max\<close>.
\<close>

theorem blur_emits_unclamped:
  "(unformat lib p (amount st) \<noteq> 0 \<longrightarrow>
      onBlurHandler_p0 lib p evt st
      = Inr (st\<lparr>amount := format_p0 lib p (amount st),
                 emitted := emitted st @
                   [Blur evt,
                    Input (if toLowerCase (outputType p) = ''string''
                           then JStr (toFixed lib (unformat lib p (amount st)) (precision p))
                           else JNum (unformat lib p (amount st)))]\<rparr>))
   \<and> unformat lib (p\<lparr>min_prop := lo, max_prop := hi, minus_prop := m\<rparr>) v = unformat lib p v
   \<and> (\<exists>q s e. onBlurHandler_p0 accounting_js q \<lparr>target_value = s\<rparr> \<lparr>amount = JStr s, emitted = []\<rparr>
                = Inr \<lparr>amount = format_p0 accounting_js q (JNum (max_prop q)),
                       emitted = [Blur \<lparr>target_value = s\<rparr>, Input (JNum e)]\<rparr>
              \<and> min_prop q \<le> max_prop q \<and> max_prop q < e)"
proof (intro conjI impI)
  assume "unformat lib p (amount st) \<noteq> 0"
  then show "onBlurHandler_p0 lib p evt st
      = Inr (st\<lparr>amount := format_p0 lib p (amount st),
                 emitted := emitted st @
                   [Blur evt,
                    Input (if toLowerCase (outputType p) = ''string''
                           then JStr (toFixed lib (unformat lib p (amount st)) (precision p))
                           else JNum (unformat lib p (amount st)))]\<rparr>)"
    by (simp add: onBlurHandler_p0_def update_p0_def emit_def Let_def)
next
  show "unformat lib (p\<lparr>min_prop := lo, max_prop := hi, minus_prop := m\<rparr>) v = unformat lib p v"
    by (simp add: unformat_def decimalSeparatorSymbol_def)
next
  have "onBlurHandler_p0 accounting_js (default_props\<lparr>min_prop := 0, max_prop := 100\<rparr>)
          \<lparr>target_value = ''150''\<rparr> \<lparr>amount = JStr ''150'', emitted = []\<rparr>
        = Inr \<lparr>amount = format_p0 accounting_js (default_props\<lparr>min_prop := 0, max_prop := 100\<rparr>)
                          (JNum (max_prop (default_props\<lparr>min_prop := 0, max_prop := 100\<rparr>))),
               emitted = [Blur \<lparr>target_value = ''150''\<rparr>, Input (JNum 150)]\<rparr>
        \<and> min_prop (default_props\<lparr>min_prop := 0, max_prop := 100\<rparr>)
            \<le> max_prop (default_props\<lparr>min_prop := 0, max_prop := 100\<rparr>)
        \<and> max_prop (default_props\<lparr>min_prop := 0, max_prop := 100\<rparr>) < 150"
    by code_simp
  then show "\<exists>q s e. onBlurHandler_p0 accounting_js q \<lparr>target_value = s\<rparr> \<lparr>amount = JStr s, emitted = []\<rparr>
                = Inr \<lparr>amount = format_p0 accounting_js q (JNum (max_prop q)),
                       emitted = [Blur \<lparr>target_value = s\<rparr>, Input (JNum e)]\<rparr>
              \<and> min_prop q \<le> max_prop q \<and> max_prop q < e"
    by blast
qed

theorem blur_emits_unclamped_witness:
  "unformat accounting_js (default_props\<lparr>min_prop := 0, max_prop := 100\<rparr>)
       (amount \<lparr>amount = JStr ''150'', emitted = []\<rparr>) = 150
   \<and> onBlurHandler_p0 accounting_js (default_props\<lparr>min_prop := 0, max_prop := 100\<rparr>)
       \<lparr>target_value = ''150''\<rparr> \<lparr>amount = JStr ''150'', emitted = []\<rparr>
     = Inr \<lparr>amount = JStr ''100'',
            emitted = [Blur \<lparr>target_value = ''150''\<rparr>, Input (JNum 150)]\<rparr>"
proof -
  let ?p = "default_props\<lparr>min_prop := 0, max_prop := 100\<rparr>"
  let ?st = "\<lparr>amount = JStr ''150'', emitted = []\<rparr>"
  have u: "unformat accounting_js ?p (amount ?st) = 150"
    by code_simp
  have f: "format_p0 accounting_js ?p (amount ?st) = JStr ''100''"
    by code_simp
  have o: "toLowerCase (outputType ?p) \<noteq> ''string''"
    by code_simp
  show ?thesis
    using blur_emits_unclamped [where lib = accounting_js and p = "?p" and st = "?st"
        and evt = "\<lparr>target_value = ''150''\<rparr>" and lo = 0 and hi = 0 and m = False and v = JNull]
      u f o
    by simp
qed

section \<open>Watchers\<close>

text \<open>
  C5 says that on an external value change the display is recomputed exactly when the new
  value differs from the numeric interpretation of the displayed text. The watcher
  compares the new value with the display itself by \<open>!==\<close>: with the symbol \<open>$\<close>, a
  display \<open>5\<close> (which unformats to 5) and the new value 5, both files recompute the
  display, to \<open>$ 5\<close>.
\<close>

theorem value_watcher_counterexample:
  "unformat accounting_js (default_props\<lparr>currency := ''$''\<rparr>) (JStr ''5'') = 5
   \<and> watch_value accounting_js (default_props\<lparr>currency := ''$''\<rparr>) (JNum 5)
        \<lparr>amount = JStr ''5'', emitted = []\<rparr>
      = \<lparr>amount = JStr ''$ 5'', emitted = []\<rparr>
   \<and> watch_value_p0 accounting_js (default_props\<lparr>currency := ''$''\<rparr>) (JNum 5)
        \<lparr>amount = JStr ''5'', emitted = []\<rparr>
      = \<lparr>amount = JStr ''$ 5'', emitted = []\<rparr>"
  by code_simp

text \<open>
  C5, amended. On an external value change the display is recomputed exactly when the new
  value is not strictly equal to the display itself, so always when the new value is a
  number and the display holds text. When it is recomputed it becomes \<open>process(newValue)\<close>
  (in the second file \<open>format(newValue)\<close>), whatever the display held.
\<close>

theorem value_watcher_resync:
  "(newValue \<noteq> amount st \<longrightarrow>
      watch_value lib p newValue st = st\<lparr>amount := JStr (process lib p newValue)\<rparr>
      \<and> watch_value_p0 lib p newValue st = st\<lparr>amount := format_p0 lib p newValue\<rparr>)
   \<and> (newValue = amount st \<longrightarrow>
      watch_value lib p newValue st = st \<and> watch_value_p0 lib p newValue st = st)
   \<and> (amount st = JStr s \<longrightarrow>
      watch_value lib p (JNum n) st = st\<lparr>amount := JStr (process lib p (JNum n))\<rparr>
      \<and> watch_value_p0 lib p (JNum n) st = st\<lparr>amount := format_p0 lib p (JNum n)\<rparr>)"
  by (simp add: watch_value_def watch_value_p0_def)

theorem value_watcher_resync_witness:
  "JNum 7 \<noteq> amount \<lparr>amount = JStr ''12x'', emitted = []\<rparr>
   \<and> watch_value accounting_js default_props (JNum 7) \<lparr>amount = JStr ''12x'', emitted = []\<rparr>
      = \<lparr>amount = JStr ''7'', emitted = []\<rparr>
   \<and> watch_value_p0 accounting_js default_props (JNum 7) \<lparr>amount = JStr ''12x'', emitted = []\<rparr>
      = \<lparr>amount = JStr ''7'', emitted = []\<rparr>
   \<and> watch_value accounting_js default_props (JStr ''7'') \<lparr>amount = JStr ''7'', emitted = []\<rparr>
      = \<lparr>amount = JStr ''7'', emitted = []\<rparr>"
proof -
  have p: "process accounting_js default_props (JNum 7) = ''7''"
    by code_simp
  have f: "format_p0 accounting_js default_props (JNum 7) = JStr ''7''"
    by code_simp
  show ?thesis
    using value_watcher_resync [of "JNum 7" "\<lparr>amount = JStr ''12x'', emitted = []\<rparr>"
        accounting_js default_props "''12x''" 7]
      value_watcher_resync [of "JStr ''7''" "\<lparr>amount = JStr ''7'', emitted = []\<rparr>"
        accounting_js default_props "''7''" 7]
    by (simp add: p f)
qed

text \<open>
  C6 says that a change of \<open>separator\<close>, \<open>currency\<close> or \<open>precision\<close> recomputes the display
  by the full pipeline (unformat, clamp, format) on the external value. The second file's
  watchers call its \<open>format\<close>, which returns the empty string unchanged: with the external
  value \<open>''\<close> the display becomes empty, where the pipeline renders \<open>0\<close>.
\<close>

theorem config_watchers_counterexample:
  "watch_separator_p0 accounting_js (default_props\<lparr>value_prop := JStr []\<rparr>)
      \<lparr>amount = JStr ''7'', emitted = []\<rparr>
     = \<lparr>amount = JStr [], emitted = []\<rparr>
   \<and> JStr (formatMoney accounting_js
             (processedValue accounting_js (default_props\<lparr>value_prop := JStr []\<rparr>) (JStr []))
             (money_opts (default_props\<lparr>value_prop := JStr []\<rparr>)))
     = JStr ''0''"
  by code_simp

text \<open>
  C6, amended. A change of \<open>separator\<close>, \<open>currency\<close> or \<open>precision\<close> recomputes the display
  from the external value alone, whatever the display held. \<open>src/vue-numeric.vue\<close> applies
  the full pipeline, \<open>process\<close>: the value is unformatted, clamped and rendered. The second
  file does the same, except that an external value that is the empty string or \<open>null\<close>
  becomes the display unchanged.
\<close>

theorem config_watchers_resync:
  "watch_separator lib p st = st\<lparr>amount := JStr (process lib p (value_prop p))\<rparr>
   \<and> watch_currency lib p st = st\<lparr>amount := JStr (process lib p (value_prop p))\<rparr>
   \<and> watch_precision lib p st = st\<lparr>amount := JStr (process lib p (value_prop p))\<rparr>
   \<and> process lib p v = formatMoney lib (processedValue lib p v) (money_opts p)
   \<and> (value_prop p \<noteq> JStr [] \<and> value_prop p \<noteq> JNull \<longrightarrow>
        watch_separator_p0 lib p st = st\<lparr>amount := JStr (process lib p (value_prop p))\<rparr>
        \<and> watch_currency_p0 lib p st = st\<lparr>amount := JStr (process lib p (value_prop p))\<rparr>
        \<and> watch_precision_p0 lib p st = st\<lparr>amount := JStr (process lib p (value_prop p))\<rparr>)
   \<and> (value_prop p = JStr [] \<or> value_prop p = JNull \<longrightarrow>
        watch_separator_p0 lib p st = st\<lparr>amount := value_prop p\<rparr>
        \<and> watch_currency_p0 lib p st = st\<lparr>amount := value_prop p\<rparr>
        \<and> watch_precision_p0 lib p st = st\<lparr>amount := value_prop p\<rparr>)
   \<and> amount (watch_separator lib p (st\<lparr>amount := a\<rparr>)) = amount (watch_separator lib p st)
   \<and> amount (watch_separator_p0 lib p (st\<lparr>amount := a\<rparr>)) = amount (watch_separator_p0 lib p st)"
  by (auto simp add: watch_separator_def watch_currency_def watch_precision_def process_def format_def
      watch_separator_p0_def watch_currency_p0_def watch_precision_p0_def format_p0_def)

theorem config_watchers_resync_witness:
  "value_prop (default_props\<lparr>value_prop := JNum 1234, separator := ''.''\<rparr>) \<noteq> JStr []
   \<and> value_prop (default_props\<lparr>value_prop := JNum 1234, separator := ''.''\<rparr>) \<noteq> JNull
   \<and> watch_separator accounting_js (default_props\<lparr>value_prop := JNum 1234, separator := ''.''\<rparr>)
        \<lparr>amount = JStr ''12x'', emitted = []\<rparr>
      = \<lparr>amount = JStr ''1.234'', emitted = []\<rparr>
   \<and> watch_separator_p0 accounting_js (default_props\<lparr>value_prop := JNum 1234, separator := ''.''\<rparr>)
        \<lparr>amount = JStr ''12x'', emitted = []\<rparr>
      = \<lparr>amount = JStr ''1.234'', emitted = []\<rparr>
   \<and> watch_precision_p0 accounting_js (default_props\<lparr>value_prop := JNull\<rparr>)
        \<lparr>amount = JStr ''12x'', emitted = []\<rparr>
      = \<lparr>amount = JNull, emitted = []\<rparr>"
proof -
  let ?p = "default_props\<lparr>value_prop := JNum 1234, separator := ''.''\<rparr>"
  have v: "value_prop ?p \<noteq> JStr [] \<and> value_prop ?p \<noteq> JNull"
    by (simp add: default_props_def)
  have r: "process accounting_js ?p (value_prop ?p) = ''1.234''"
    by code_simp
  have n: "value_prop (default_props\<lparr>value_prop := JNull\<rparr>) = JNull"
    by (simp add: default_props_def)
  show ?thesis
    using config_watchers_resync [of accounting_js ?p "\<lparr>amount = JStr ''12x'', emitted = []\<rparr>"
        JNull JNull]
      config_watchers_resync [of accounting_js "default_props\<lparr>value_prop := JNull\<rparr>"
        "\<lparr>amount = JStr ''12x'', emitted = []\<rparr>" JNull JNull]
      v r n
    by simp
qed

section \<open>Formatting and unformatting again\<close>

lemma digit_char_is_digit: "is_digit (digit_char k)"
proof -
  have "k mod 10 < 10" by simp
  then have "(48 + k mod 10) mod 256 = 48 + k mod 10" by simp
  then show ?thesis
    by (simp add: is_digit_def digit_char_def)
qed

lemma digit_val_digit_char: "digit_val (digit_char k) = k mod 10"
proof -
  have "k mod 10 < 10" by simp
  then have "(48 + k mod 10) mod 256 = 48 + k mod 10" by simp
  then show ?thesis
    by (simp add: digit_val_def digit_char_def)
qed

lemma is_digit_not_minus: "is_digit c \<Longrightarrow> c \<noteq> CHR ''-''"
  by (auto simp add: is_digit_def)

lemma is_digit_not_dot: "is_digit c \<Longrightarrow> c \<noteq> CHR ''.''"
  by (auto simp add: is_digit_def)

lemma digits_all_digit: "\<forall>c\<in>set (digits n). is_digit c"
proof (induction n rule: digits.induct)
  case (1 n)
  show ?case
  proof (cases "n < 10")
    case True
    then have "digits n = [digit_char n]" by (simp add: digits.simps [of n])
    then show ?thesis by (simp add: digit_char_is_digit)
  next
    case False
    then have "digits n = digits (n div 10) @ [digit_char (n mod 10)]" by (simp add: digits.simps [of n])
    then show ?thesis using 1 False by (simp add: digit_char_is_digit)
  qed
qed

lemma digits_not_empty: "digits n \<noteq> []"
  by (simp add: digits.simps [of n])

lemma digits_val_snoc: "digits_val (ds @ [c]) = 10 * digits_val ds + digit_val c"
  by (simp add: digits_val_def)

lemma digits_val_digits: "digits_val (digits n) = n"
proof (induction n rule: digits.induct)
  case (1 n)
  show ?case
  proof (cases "n < 10")
    case True
    then have "digits n = [digit_char n]" by (simp add: digits.simps [of n])
    then show ?thesis using True by (simp add: digits_val_def digit_val_digit_char)
  next
    case False
    then have "digits n = digits (n div 10) @ [digit_char (n mod 10)]" by (simp add: digits.simps [of n])
    then show ?thesis using 1 False by (simp add: digits_val_snoc digit_val_digit_char)
  qed
qed

lemma length_digits: "n < 10 ^ k \<Longrightarrow> 0 < k \<Longrightarrow> length (digits n) \<le> k"
proof (induction n arbitrary: k rule: digits.induct)
  case (1 n)
  show ?case
  proof (cases "n < 10")
    case True
    then have "digits n = [digit_char n]" by (simp add: digits.simps [of n])
    then show ?thesis using "1.prems" by simp
  next
    case False
    then have eq: "digits n = digits (n div 10) @ [digit_char (n mod 10)]" by (simp add: digits.simps [of n])
    obtain j where k: "k = Suc j" using "1.prems" by (cases k) auto
    have "j \<noteq> 0" using False "1.prems" k by (cases j) auto
    moreover have "n div 10 < 10 ^ j" using "1.prems" k by (simp add: less_mult_imp_div_less mult.commute)
    ultimately have "length (digits (n div 10)) \<le> j" using "1.IH" [of j] False by simp
    then show ?thesis using eq k by simp
  qed
qed

lemma digits_val_zeros: "digits_val (replicate j (CHR ''0'') @ ds) = digits_val ds"
proof (induction j)
  case 0
  show ?case by simp
next
  case (Suc j)
  have "digits_val (CHR ''0'' # replicate j (CHR ''0'') @ ds) = digits_val (replicate j (CHR ''0'') @ ds)"
    by (simp add: digits_val_def digit_val_def)
  then show ?case using Suc by simp
qed

lemma pad_zeros_props:
  assumes "m < 10 ^ p" "0 < p"
  shows "length (pad_zeros p (digits m)) = p"
    and "digits_val (pad_zeros p (digits m)) = m"
    and "\<forall>c\<in>set (pad_zeros p (digits m)). is_digit c"
proof -
  have "length (digits m) \<le> p" using assms by (rule length_digits)
  then show "length (pad_zeros p (digits m)) = p" by (simp add: pad_zeros_def)
  show "digits_val (pad_zeros p (digits m)) = m"
    by (simp add: pad_zeros_def digits_val_zeros digits_val_digits)
  have "is_digit (CHR ''0'')" by (simp add: is_digit_def)
  then show "\<forall>c\<in>set (pad_zeros p (digits m)). is_digit c"
    using digits_all_digit [of m] by (auto simp add: pad_zeros_def)
qed

lemma replace_first_step:
  "take (length pat) (a # s) \<noteq> pat \<Longrightarrow>
   replace_first pat rep (a # s) = a # replace_first pat rep s"
  by (simp del: take_Suc_Cons drop_Suc_Cons)

lemma replace_first_here:
  "take (length pat) (a # s) = pat \<Longrightarrow>
   replace_first pat rep (a # s) = rep @ drop (length pat) (a # s)"
  by (simp del: take_Suc_Cons drop_Suc_Cons)

lemma replace_first_hit:
  "replace_first pat rep (pat @ s) = rep @ s"
proof (cases "pat @ s")
  case Nil
  then show ?thesis by simp
next
  case (Cons e es)
  have "take (length pat) (e # es) = pat" using Cons by (metis append_eq_conv_conj)
  then have "replace_first pat rep (e # es) = rep @ drop (length pat) (e # es)"
    by (simp del: take_Suc_Cons drop_Suc_Cons)
  then show ?thesis using Cons by (metis append_eq_conv_conj)
qed

lemma replace_first_skip:
  assumes "c \<notin> set d1" "c \<notin> set u"
  shows "replace_first (d1 @ c # d2) rep (u @ (d1 @ c # d2) @ w) = u @ rep @ w"
  using assms(2)
proof (induction u)
  case Nil
  let ?pat = "d1 @ c # d2"
  obtain e es where s: "?pat @ w = e # es" by (cases d1) auto
  have "take (length ?pat) (?pat @ w) = ?pat" by simp
  then have "replace_first ?pat rep (e # es) = rep @ drop (length ?pat) (e # es)"
    unfolding s [symmetric] using s by (metis replace_first.simps(2))
  then show ?case using s by (metis append_Nil append_eq_conv_conj)
next
  case (Cons a u)
  let ?pat = "d1 @ c # d2"
  let ?s = "a # u @ ?pat @ w"
  have "take (length ?pat) ?s \<noteq> ?pat"
  proof
    assume eq: "take (length ?pat) ?s = ?pat"
    have lt: "length d1 < length ?pat" by simp
    have "?pat ! length d1 = c" by simp
    then have at: "?s ! length d1 = c"
      using eq lt by (metis nth_take)
    show False
    proof (cases "length d1 < length (a # u)")
      case True
      then have "?s ! length d1 = (a # u) ! length d1"
        by (metis append_Cons nth_append)
      then have "c \<in> set (a # u)" using at True by (metis nth_mem)
      then show False using Cons.prems by simp
    next
      case False
      define k where "k = length d1 - length (a # u)"
      have k: "k < length d1" using False by (simp add: k_def)
      have "?s ! length d1 = (?pat @ w) ! k"
        using False by (metis append_Cons k_def nth_append)
      also have "\<dots> = d1 ! k" using k by (simp add: nth_append)
      finally have "c = d1 ! k" using at by simp
      then have "c \<in> set d1" using k by simp
      then show False using assms(1) by simp
    qed
  qed
  then have "replace_first ?pat rep ?s = a # replace_first ?pat rep (u @ ?pat @ w)"
    by (simp del: take_Suc_Cons drop_Suc_Cons)
  then show ?case using Cons by simp
qed

lemma replace_first_absent:
  assumes "c \<in> set d" "c \<notin> set u"
  shows "replace_first d rep u = u"
  using assms(2)
proof (induction u)
  case Nil
  then show ?case using assms(1) by auto
next
  case (Cons a u)
  have "take (length d) (a # u) \<noteq> d"
  proof
    assume "take (length d) (a # u) = d"
    then have "set d \<subseteq> set (a # u)" by (metis set_take_subset)
    then show False using assms(1) Cons.prems by auto
  qed
  then have "replace_first d rep (a # u) = a # replace_first d rep u"
    by (simp del: take_Suc_Cons drop_Suc_Cons)
  then show ?case using Cons by simp
qed

lemma concat_chunks3: "concat (chunks3 xs) = xs"
  by (induction xs rule: chunks3.induct) simp_all

lemma filter_join:
  assumes "filter P t = []"
  shows "filter P (join t xs) = filter P (concat xs)"
  using assms by (induction t xs rule: join.induct) simp_all

lemma filter_group3:
  assumes "filter P t = []" "\<forall>c\<in>set ds. P c"
  shows "filter P (group3 t ds) = ds"
proof -
  define m where "m = (if 3 < length ds then length ds mod 3 else 0)"
  have a: "filter P (join t (chunks3 (drop m ds))) = filter P (drop m ds)"
    using assms(1) by (simp add: filter_join concat_chunks3)
  have b: "filter P (if m \<noteq> 0 then take m ds @ t else []) = filter P (take m ds)"
    using assms(1) by simp
  have "filter P (group3 t ds) = filter P (take m ds) @ filter P (drop m ds)"
    unfolding group3_def m_def [symmetric] Let_def filter_append a b ..
  also have "\<dots> = filter P (take m ds @ drop m ds)" by (simp only: filter_append)
  also have "\<dots> = filter P ds" by (simp only: append_take_drop_id)
  also have "\<dots> = ds" using assms(2) by (simp add: filter_id_conv)
  finally show ?thesis .
qed

lemma parse_float_digits:
  assumes "\<forall>c\<in>set a. is_digit c" "a \<noteq> []"
  shows "parse_float a = Some (of_nat (digits_val a))"
proof -
  have t: "takeWhile is_digit a = a" using assms(1) by simp
  have d: "dropWhile is_digit a = []" using assms(1) by simp
  have z: "digits_val [] = 0" by (simp add: digits_val_def)
  show ?thesis using assms(2) by (simp add: parse_float_def t d z)
qed

lemma parse_float_fraction:
  assumes "\<forall>c\<in>set a. is_digit c" "a \<noteq> []" "\<forall>c\<in>set b. is_digit c"
  shows "parse_float (a @ CHR ''.'' # b)
         = Some (of_nat (digits_val a) + of_nat (digits_val b) / 10 ^ length b)"
proof -
  have dot: "\<not> is_digit (CHR ''.'')" by (simp add: is_digit_def)
  have t: "takeWhile is_digit (a @ CHR ''.'' # b) = a"
    using assms(1) dot by simp
  have d: "dropWhile is_digit (a @ CHR ''.'' # b) = CHR ''.'' # b"
    using assms(1) dot by simp
  have f: "takeWhile is_digit b = b" using assms(3) by simp
  show ?thesis using assms(2) by (simp add: parse_float_def t d f)
qed




lemma kept_formatNumber:
  assumes "\<forall>c\<in>set (opt_thousand opts). \<not> kept (opt_decimal opts) c"
  shows "filter (kept (opt_decimal opts)) (acc_formatNumber x opts)
         = digits (nat (round_scaled \<bar>x\<bar> (opt_precision opts)) div 10 ^ opt_precision opts)
           @ (if 0 < opt_precision opts
              then opt_decimal opts
                   @ pad_zeros (opt_precision opts)
                       (digits (nat (round_scaled \<bar>x\<bar> (opt_precision opts)) mod 10 ^ opt_precision opts))
              else [])"
proof -
  define p where "p = opt_precision opts"
  define m where "m = nat (round_scaled \<bar>x\<bar> p)"
  define d where "d = opt_decimal opts"
  have t: "filter (kept d) (opt_thousand opts) = []"
    using assms by (simp add: d_def filter_empty_conv)
  have dg: "\<forall>c\<in>set (digits (m div 10 ^ p)). kept d c"
    using digits_all_digit [of "m div 10 ^ p"] by (simp add: kept_def)
  have g: "filter (kept d) (group3 (opt_thousand opts) (digits (m div 10 ^ p))) = digits (m div 10 ^ p)"
    using t dg by (rule filter_group3)
  have dd: "filter (kept d) d = d"
    by (simp add: kept_def filter_id_conv)
  have fr: "filter (kept d) (pad_zeros p (digits (m mod 10 ^ p))) = pad_zeros p (digits (m mod 10 ^ p))"
    if "0 < p"
  proof -
    have "m mod 10 ^ p < 10 ^ p" by simp
    then have "\<forall>c\<in>set (pad_zeros p (digits (m mod 10 ^ p))). is_digit c"
      using that by (rule pad_zeros_props(3))
    then show ?thesis by (simp add: kept_def filter_id_conv)
  qed
  show ?thesis
    unfolding acc_formatNumber_def Let_def p_def [symmetric] m_def [symmetric] d_def [symmetric]
    using g dd fr by simp
qed

lemma money_opts_sel:
  "opt_symbol (money_opts p) = currency p"
  "opt_format (money_opts p) = symbolPosition p"
  "opt_precision (money_opts p) = precision p"
  "opt_decimal (money_opts p) = decimalSeparatorSymbol p"
  "opt_thousand (money_opts p) = thousandSeparatorSymbol p"
  by (simp_all add: money_opts_def)

text \<open>
  Where the number lands in the stripped text: the first \<open>%v\<close> of the format is replaced,
  and what stands before and after it keeps its surviving characters in their order.
\<close>

lemma stripped_value_marker:
  assumes "\<forall>c\<in>set u. c = CHR ''%'' \<or> c = CHR ''v'' \<longrightarrow> \<not> K c"
  shows "\<exists>fa fb. filter K (replace_first ''%v'' num (u @ ''%v'' @ w)) = fa @ filter K num @ fb
                 \<and> fa @ fb = filter K (u @ w)"
  using assms
proof (induction u)
  case Nil
  have "replace_first ''%v'' num (''%v'' @ w) = num @ w"
    by (rule replace_first_hit)
  then have "filter K (replace_first ''%v'' num ([] @ ''%v'' @ w)) = [] @ filter K num @ filter K w
             \<and> [] @ filter K w = filter K ([] @ w)"
    by (simp only: append_Nil filter_append)
  then show ?case by (intro exI)
next
  case (Cons a u')
  have pr: "\<forall>c\<in>set u'. c = CHR ''%'' \<or> c = CHR ''v'' \<longrightarrow> \<not> K c"
    using Cons.prems by simp
  have e: "(a # u') @ ''%v'' @ w = a # u' @ ''%v'' @ w"
    by (rule append_Cons)
  show ?case
  proof (cases "take (length ''%v'') (a # u' @ ''%v'' @ w) = ''%v''")
    case True
    have step: "replace_first ''%v'' num (a # u' @ ''%v'' @ w)
                = num @ drop (length ''%v'') (a # u' @ ''%v'' @ w)"
      using True by (rule replace_first_here)
    have a: "a = CHR ''%''" using True by simp
    have "hd (u' @ ''%v'' @ w) = CHR ''v''" using True by (cases u') simp_all
    then obtain u'' where u': "u' = CHR ''v'' # u''" by (cases u') simp_all
    have nk: "\<not> K (CHR ''%'')" "\<not> K (CHR ''v'')"
      using Cons.prems a u' by simp_all
    have dr: "drop (length ''%v'') (a # u' @ ''%v'' @ w) = u'' @ ''%v'' @ w"
      using u' by simp
    have f1: "filter K (replace_first ''%v'' num ((a # u') @ ''%v'' @ w))
              = [] @ filter K num @ filter K (u'' @ w)"
      unfolding e step dr using nk by simp
    have f2: "[] @ filter K (u'' @ w) = filter K ((a # u') @ w)"
      unfolding a u' using nk by simp
    from f1 f2 show ?thesis by (intro exI conjI)
  next
    case False
    then have r: "replace_first ''%v'' num (a # u' @ ''%v'' @ w)
                  = a # replace_first ''%v'' num (u' @ ''%v'' @ w)"
      by (rule replace_first_step)
    from Cons.IH [OF pr] obtain fa fb where
      ih: "filter K (replace_first ''%v'' num (u' @ ''%v'' @ w)) = fa @ filter K num @ fb"
        "fa @ fb = filter K (u' @ w)"
      by (elim exE conjE)
    have f1: "filter K (replace_first ''%v'' num ((a # u') @ ''%v'' @ w))
              = (filter K [a] @ fa) @ filter K num @ fb"
      unfolding e r using ih(1) by simp
    have f2: "(filter K [a] @ fa) @ fb = filter K ((a # u') @ w)"
      using ih(2) by simp
    from f1 f2 show ?thesis by (intro exI conjI)
  qed
qed

lemma stripped_formatMoney:
  assumes "round_trip_config p"
  shows "\<exists>fa fb.
           filter (kept (decimalSeparatorSymbol p)) (acc_formatMoney x (money_opts p))
           = fa @ filter (kept (decimalSeparatorSymbol p)) (acc_formatNumber x (money_opts p)) @ fb
           \<and> fa @ fb = (if x < 0 then ''-'' else [])"
proof -
  define d where "d = decimalSeparatorSymbol p"
  define num where "num = acc_formatNumber x (money_opts p)"
  define sym where "sym = currency p"
  have cur: "\<forall>c\<in>set sym. \<not> kept d c"
    using assms by (simp add: round_trip_config_def d_def sym_def)
  then have curf: "filter (kept d) sym = []"
    by (simp add: filter_empty_conv)
  have sp: "\<not> kept d (CHR '' '')" if "sym \<noteq> []"
    using assms that by (simp add: round_trip_config_def d_def sym_def kept_def is_digit_def)
  have mi: "kept d (CHR ''-'')"
    by (simp add: kept_def)
  have marker: "\<exists>fa fb. filter (kept d) (replace_first ''%v'' num (u @ ''%v'' @ w))
                          = fa @ filter (kept d) num @ fb
                        \<and> fa @ fb = filter (kept d) (u @ w)"
    if "\<forall>c\<in>set u. c = CHR ''%'' \<or> c = CHR ''v'' \<longrightarrow> \<not> kept d c" for u w
    using that by (rule stripped_value_marker)
  consider (none) "sym = []"
    | (suffix) "sym \<noteq> []" "currencySymbolPosition p = ''suffix''"
    | (prefix) "sym \<noteq> []" "currencySymbolPosition p \<noteq> ''suffix''"
    by blast
  then show ?thesis
  proof cases
    case none
    have fm: "acc_formatMoney x (money_opts p)
              = replace_first ''%v'' num ((if x < 0 then ''-'' else []) @ ''%v'' @ [])"
      using none
      by (simp add: acc_formatMoney_def money_opts_sel symbolPosition_def num_def sym_def)
    have "\<forall>c\<in>set (if x < 0 then ''-'' else []). c = CHR ''%'' \<or> c = CHR ''v'' \<longrightarrow> \<not> kept d c"
      by simp
    from marker [OF this, of "[]"] show ?thesis
      unfolding fm d_def [symmetric] num_def [symmetric] using mi by simp
  next
    case suffix
    have fm: "acc_formatMoney x (money_opts p)
              = replace_first ''%v'' num ((if x < 0 then ''-'' else []) @ ''%v'' @ ('' '' @ sym))"
      using suffix
      by (simp add: acc_formatMoney_def money_opts_sel symbolPosition_def num_def sym_def)
    have "\<forall>c\<in>set (if x < 0 then ''-'' else []). c = CHR ''%'' \<or> c = CHR ''v'' \<longrightarrow> \<not> kept d c"
      by simp
    from marker [OF this, of "'' '' @ sym"] show ?thesis
      unfolding fm d_def [symmetric] num_def [symmetric] using mi curf sp [OF suffix(1)] by simp
  next
    case prefix
    have fm: "acc_formatMoney x (money_opts p)
              = replace_first ''%v'' num ((sym @ '' '' @ (if x < 0 then ''-'' else [])) @ ''%v'' @ [])"
      using prefix
      by (simp add: acc_formatMoney_def money_opts_sel symbolPosition_def num_def sym_def)
    have "\<forall>c\<in>set (sym @ '' '' @ (if x < 0 then ''-'' else [])).
            c = CHR ''%'' \<or> c = CHR ''v'' \<longrightarrow> \<not> kept d c"
      using cur by auto
    from marker [OF this, of "[]"] show ?thesis
      unfolding fm d_def [symmetric] num_def [symmetric] using mi curf sp [OF prefix(1)] by simp
  qed
qed

lemma acc_unformat_JStr:
  "acc_unformat (JStr s) d
   = (case parse_float (filter (\<lambda>c. c \<noteq> CHR ''-'') (replace_first d ''.'' (filter (kept d) s))) of
        None \<Rightarrow> 0
      | Some q \<Rightarrow>
          if odd (length (filter (\<lambda>c. c = CHR ''-'') (replace_first d ''.'' (filter (kept d) s))))
          then - q else q)"
  by (simp add: acc_unformat_def Let_def)

lemma div_mod_rat:
  fixes m k :: nat
  assumes "0 < k"
  shows "(of_nat (m div k) :: rat) + of_nat (m mod k) / of_nat k = of_nat m / of_nat k"
proof -
  have "m = k * (m div k) + m mod k" by simp
  then have "(of_nat m :: rat) = of_nat k * of_nat (m div k) + of_nat (m mod k)"
    by (metis of_nat_add of_nat_mult)
  then show ?thesis using assms by (simp add: field_simps)
qed

lemma unformat_formatMoney:
  assumes "round_trip_config p"
  shows "acc_unformat (JStr (acc_formatMoney x (money_opts p))) (decimalSeparatorSymbol p)
         = (if x < 0 then - 1 else 1)
           * (of_nat (nat (round_scaled \<bar>x\<bar> (precision p))) / 10 ^ precision p)"
proof -
  define d where "d = decimalSeparatorSymbol p"
  define n where "n = precision p"
  define m where "m = nat (round_scaled \<bar>x\<bar> n)"
  define a where "a = digits (m div 10 ^ n)"
  define b where "b = pad_zeros n (digits (m mod 10 ^ n))"
  have d_ok: "\<exists>c\<in>set d. \<not> is_digit c \<and> c \<noteq> CHR ''-''"
    and th: "\<forall>c\<in>set (opt_thousand (money_opts p)). \<not> kept (opt_decimal (money_opts p)) c"
    using assms by (simp_all add: round_trip_config_def d_def money_opts_sel)
  define other where "other = (\<lambda>c. \<not> is_digit c \<and> c \<noteq> CHR ''-'')"
  have "\<exists>c\<in>set d. other c" using d_ok by (simp add: other_def)
  then obtain d1 c d2 where d: "d = d1 @ c # d2" and oc: "other c"
    and d1: "\<forall>y\<in>set d1. \<not> other y"
    by (rule split_list_first_propE)
  have c: "\<not> is_digit c" "c \<noteq> CHR ''-''" using oc by (simp_all add: other_def)
  have c_d1: "c \<notin> set d1" using oc d1 by blast
  have c_d: "c \<in> set d" using d by simp
  have a_dig: "\<forall>c\<in>set a. is_digit c" and a_ne: "a \<noteq> []"
    by (simp_all add: a_def digits_all_digit digits_not_empty)
  have b_dig: "\<forall>c\<in>set b. is_digit c" and b_len: "length b = n" and b_val: "digits_val b = m mod 10 ^ n"
    if "0 < n"
  proof -
    have lt: "m mod 10 ^ n < 10 ^ n" by simp
    show "\<forall>c\<in>set b. is_digit c" unfolding b_def using lt that by (rule pad_zeros_props(3))
    show "length b = n" unfolding b_def using lt that by (rule pad_zeros_props(1))
    show "digits_val b = m mod 10 ^ n" unfolding b_def using lt that by (rule pad_zeros_props(2))
  qed
  obtain fa fb where stripped0:
      "filter (kept d) (acc_formatMoney x (money_opts p))
       = fa @ filter (kept d) (acc_formatNumber x (money_opts p)) @ fb"
    and sg: "fa @ fb = (if x < 0 then ''-'' else [])"
    using stripped_formatMoney [OF assms, of x] unfolding d_def by blast
  have fab: "set fa \<subseteq> {CHR ''-''}" "set fb \<subseteq> {CHR ''-''}"
  proof -
    have "set (fa @ fb) \<subseteq> {CHR ''-''}" unfolding sg by auto
    then show "set fa \<subseteq> {CHR ''-''}" "set fb \<subseteq> {CHR ''-''}" by simp_all
  qed
  have len: "length fa + length fb = (if x < 0 then 1 else 0)"
  proof -
    have "length (fa @ fb) = (if x < 0 then 1 else 0)" unfolding sg by simp
    then show ?thesis by simp
  qed
  have stripped: "filter (kept d) (acc_formatMoney x (money_opts p))
                  = fa @ a @ (if 0 < n then d @ b else []) @ fb"
    using stripped0 kept_formatNumber [OF th, of x]
    by (simp add: money_opts_sel d_def n_def m_def a_def b_def)
  have c_fa: "c \<notin> set (fa @ a)" "c \<notin> set (fa @ a @ fb)"
    using c a_dig fab by auto
  have std: "replace_first d ''.'' (fa @ a @ (if 0 < n then d @ b else []) @ fb)
             = fa @ a @ (if 0 < n then ''.'' @ b else []) @ fb"
  proof (cases "0 < n")
    case True
    have "replace_first (d1 @ c # d2) ''.'' ((fa @ a) @ (d1 @ c # d2) @ (b @ fb))
          = (fa @ a) @ ''.'' @ (b @ fb)"
      using c_d1 c_fa(1) by (rule replace_first_skip)
    then show ?thesis using True by (simp add: d)
  next
    case False
    have "replace_first d ''.'' (fa @ a @ fb) = fa @ a @ fb"
      using c_d c_fa(2) by (rule replace_first_absent)
    then show ?thesis using False by simp
  qed
  have fa_nm: "filter (\<lambda>c. c \<noteq> CHR ''-'') fa = []" "filter (\<lambda>c. c = CHR ''-'') fa = fa"
    and fb_nm: "filter (\<lambda>c. c \<noteq> CHR ''-'') fb = []" "filter (\<lambda>c. c = CHR ''-'') fb = fb"
    using fab by (auto simp add: filter_id_conv filter_empty_conv)
  have a_nm: "filter (\<lambda>c. c \<noteq> CHR ''-'') a = a" "filter (\<lambda>c. c = CHR ''-'') a = []"
    using a_dig is_digit_not_minus by (auto simp add: filter_id_conv filter_empty_conv)
  have b_nm: "filter (\<lambda>c. c \<noteq> CHR ''-'') b = b" "filter (\<lambda>c. c = CHR ''-'') b = []" if "0 < n"
    using b_dig [OF that] is_digit_not_minus by (auto simp add: filter_id_conv filter_empty_conv)
  have body: "filter (\<lambda>c. c \<noteq> CHR ''-'') (fa @ a @ (if 0 < n then ''.'' @ b else []) @ fb)
              = a @ (if 0 < n then ''.'' @ b else [])"
    using fa_nm fb_nm a_nm b_nm by simp
  have "length (filter (\<lambda>c. c = CHR ''-'') (fa @ a @ (if 0 < n then ''.'' @ b else []) @ fb))
        = length fa + length fb"
    using fa_nm fb_nm a_nm b_nm by simp
  then have neg: "odd (length (filter (\<lambda>c. c = CHR ''-'')
                    (fa @ a @ (if 0 < n then ''.'' @ b else []) @ fb))) = (x < 0)"
    using len by simp
  have parse: "parse_float (a @ (if 0 < n then ''.'' @ b else []))
               = Some (of_nat m / 10 ^ n)"
  proof (cases "0 < n")
    case True
    have "parse_float (a @ CHR ''.'' # b)
          = Some (of_nat (digits_val a) + of_nat (digits_val b) / 10 ^ length b)"
      using a_dig a_ne b_dig [OF True] by (rule parse_float_fraction)
    moreover have "(of_nat (m div 10 ^ n) :: rat) + of_nat (m mod 10 ^ n) / of_nat (10 ^ n)
                   = of_nat m / of_nat (10 ^ n)"
      by (rule div_mod_rat) simp
    ultimately show ?thesis
      using True by (simp add: b_len b_val a_def digits_val_digits)
  next
    case False
    have "parse_float a = Some (of_nat (digits_val a))"
      using a_dig a_ne by (rule parse_float_digits)
    then show ?thesis using False by (simp add: a_def digits_val_digits)
  qed
  show ?thesis
    unfolding acc_unformat_JStr d_def [symmetric] n_def [symmetric] m_def [symmetric]
      stripped std body neg parse
    by simp
qed

lemma round_scaled_nonneg: "0 \<le> x \<Longrightarrow> 0 \<le> round_scaled x n"
  by (simp add: round_scaled_def)

lemma round_scaled_mono: "x \<le> y \<Longrightarrow> round_scaled x n \<le> round_scaled y n"
  unfolding round_scaled_def by (intro floor_mono add_right_mono mult_right_mono) simp_all

lemma round_scaled_exact: "round_scaled (of_nat m / 10 ^ n) n = int m"
proof -
  have "(of_nat m / 10 ^ n) * 10 ^ n + 1 / 2 = (of_int (int m) :: rat) + 1 / 2"
    by simp
  moreover have "\<lfloor>(of_int (int m) :: rat) + 1 / 2\<rfloor> = int m"
    by (simp add: floor_unique)
  ultimately show ?thesis by (simp only: round_scaled_def)
qed

lemma formatMoney_cong:
  assumes "(a < 0) = (b < 0)"
    and "round_scaled \<bar>a\<bar> (opt_precision opts) = round_scaled \<bar>b\<bar> (opt_precision opts)"
  shows "acc_formatMoney a opts = acc_formatMoney b opts"
  using assms by (simp add: acc_formatMoney_def acc_formatNumber_def)

lemma round_scaled_between:
  assumes "lo \<le> z" "z \<le> hi" "(lo < 0) = (hi < 0)"
    and "round_scaled \<bar>lo\<bar> n = round_scaled \<bar>hi\<bar> n"
  shows "(z < 0) = (lo < 0) \<and> round_scaled \<bar>z\<bar> n = round_scaled \<bar>lo\<bar> n"
proof (cases "hi < 0")
  case True
  then have neg: "lo < 0" "z < 0" using assms by auto
  have "\<bar>hi\<bar> \<le> \<bar>z\<bar>" "\<bar>z\<bar> \<le> \<bar>lo\<bar>"
    using assms(1,2) True neg by simp_all
  then have "round_scaled \<bar>hi\<bar> n \<le> round_scaled \<bar>z\<bar> n" "round_scaled \<bar>z\<bar> n \<le> round_scaled \<bar>lo\<bar> n"
    by (simp_all only: round_scaled_mono)
  then show ?thesis using assms(4) neg by simp
next
  case False
  then have pos: "\<not> lo < 0" "\<not> z < 0" using assms by auto
  have "\<bar>lo\<bar> \<le> \<bar>z\<bar>" "\<bar>z\<bar> \<le> \<bar>hi\<bar>"
    using assms(1,2) False pos by simp_all
  then have "round_scaled \<bar>lo\<bar> n \<le> round_scaled \<bar>z\<bar> n" "round_scaled \<bar>z\<bar> n \<le> round_scaled \<bar>hi\<bar> n"
    by (simp_all only: round_scaled_mono)
  then show ?thesis using assms(4) pos by simp
qed

text \<open>What formatting followed by unformatting yields: the value rounded to the precision.\<close>

lemma rounded_value:
  assumes "round_trip_config p" "0 \<le> x \<or> round_scaled \<bar>x\<bar> (precision p) \<noteq> 0"
  defines "y \<equiv> acc_unformat (JStr (acc_formatMoney x (money_opts p))) (decimalSeparatorSymbol p)"
  shows "(y < 0) = (x < 0)"
    and "round_scaled \<bar>y\<bar> (precision p) = round_scaled \<bar>x\<bar> (precision p)"
proof -
  define n where "n = precision p"
  define m where "m = nat (round_scaled \<bar>x\<bar> n)"
  have y: "y = (if x < 0 then - 1 else 1) * (of_nat m / 10 ^ n)"
    unfolding y_def m_def n_def using assms(1) by (rule unformat_formatMoney)
  have q: "(0::rat) \<le> of_nat m / 10 ^ n" by simp
  have r: "int m = round_scaled \<bar>x\<bar> n"
    unfolding m_def using round_scaled_nonneg [of "\<bar>x\<bar>" n] by simp
  show "(y < 0) = (x < 0)"
  proof (cases "x < 0")
    case True
    then have "m \<noteq> 0" using assms(2) r by (auto simp add: n_def)
    then have "(0::rat) < of_nat m / 10 ^ n" by simp
    then show ?thesis using True y by simp
  next
    case False
    then have "y = of_nat m / 10 ^ n" using y by simp
    then have "\<not> y < 0" using q by (simp only: not_less)
    then show ?thesis using False by simp
  qed
  have "\<bar>y\<bar> = of_nat m / 10 ^ n"
    using y q by (simp add: abs_mult)
  then show "round_scaled \<bar>y\<bar> (precision p) = round_scaled \<bar>x\<bar> (precision p)"
    using round_scaled_exact [of m n] r by (simp add: n_def)
qed

lemma formatMoney_not_empty:
  assumes "round_trip_config p"
  shows "acc_formatMoney x (money_opts p) \<noteq> []"
proof
  assume e: "acc_formatMoney x (money_opts p) = []"
  have th: "\<forall>c\<in>set (opt_thousand (money_opts p)). \<not> kept (opt_decimal (money_opts p)) c"
    using assms by (simp add: round_trip_config_def money_opts_sel)
  have "filter (kept (decimalSeparatorSymbol p)) (acc_formatNumber x (money_opts p)) = []"
    using stripped_formatMoney [OF assms, of x] e by auto
  then show False
    using kept_formatNumber [OF th, of x] digits_not_empty by (simp add: money_opts_sel)
qed

text \<open>
  The minus signs of a formatted value: one for a negative value, and those of the decimal
  separator when there are fractional digits.
\<close>

lemma minus_count_formatMoney:
  assumes "round_trip_config p"
  shows "length (filter (\<lambda>c. c = CHR ''-'')
           (filter (kept (decimalSeparatorSymbol p)) (acc_formatMoney x (money_opts p))))
         = (if x < 0 then 1 else 0)
           + (if 0 < precision p
              then length (filter (\<lambda>c. c = CHR ''-'') (decimalSeparatorSymbol p)) else 0)"
proof -
  define d where "d = decimalSeparatorSymbol p"
  define n where "n = precision p"
  define m where "m = nat (round_scaled \<bar>x\<bar> n)"
  define a where "a = digits (m div 10 ^ n)"
  define b where "b = pad_zeros n (digits (m mod 10 ^ n))"
  have th: "\<forall>c\<in>set (opt_thousand (money_opts p)). \<not> kept (opt_decimal (money_opts p)) c"
    using assms by (simp add: round_trip_config_def money_opts_sel)
  have a_dig: "\<forall>c\<in>set a. is_digit c"
    by (simp add: a_def digits_all_digit)
  have b_dig: "\<forall>c\<in>set b. is_digit c" if "0 < n"
  proof -
    have lt: "m mod 10 ^ n < 10 ^ n" by simp
    show ?thesis unfolding b_def using lt that by (rule pad_zeros_props(3))
  qed
  obtain fa fb where stripped0:
      "filter (kept d) (acc_formatMoney x (money_opts p))
       = fa @ filter (kept d) (acc_formatNumber x (money_opts p)) @ fb"
    and sg: "fa @ fb = (if x < 0 then ''-'' else [])"
    using stripped_formatMoney [OF assms, of x] unfolding d_def by blast
  have "set (fa @ fb) \<subseteq> {CHR ''-''}" unfolding sg by auto
  then have fab: "set fa \<subseteq> {CHR ''-''}" "set fb \<subseteq> {CHR ''-''}" by simp_all
  have "length (fa @ fb) = (if x < 0 then 1 else 0)" unfolding sg by simp
  then have len: "length fa + length fb = (if x < 0 then 1 else 0)" by simp
  have stripped: "filter (kept d) (acc_formatMoney x (money_opts p))
                  = fa @ a @ (if 0 < n then d @ b else []) @ fb"
    using stripped0 kept_formatNumber [OF th, of x]
    by (simp add: money_opts_sel d_def n_def m_def a_def b_def)
  have fa_nm: "filter (\<lambda>c. c = CHR ''-'') fa = fa" and fb_nm: "filter (\<lambda>c. c = CHR ''-'') fb = fb"
    using fab by (auto simp add: filter_id_conv)
  have a_nm: "filter (\<lambda>c. c = CHR ''-'') a = []"
    using a_dig is_digit_not_minus by (auto simp add: filter_empty_conv)
  have b_nm: "filter (\<lambda>c. c = CHR ''-'') b = []" if "0 < n"
    using b_dig [OF that] is_digit_not_minus by (auto simp add: filter_empty_conv)
  have "length (filter (\<lambda>c. c = CHR ''-'') (fa @ a @ (if 0 < n then d @ b else []) @ fb))
        = length fa + length fb + (if 0 < n then length (filter (\<lambda>c. c = CHR ''-'') d) else 0)"
    using fa_nm fb_nm a_nm b_nm by simp
  then show ?thesis
    unfolding d_def [symmetric] n_def [symmetric] stripped using len by simp
qed

text \<open>A negative value and a value that is not negative are formatted differently.\<close>

lemma formatMoney_sign:
  assumes "round_trip_config p"
    and "acc_formatMoney a (money_opts p) = acc_formatMoney b (money_opts p)"
  shows "(a < 0) = (b < 0)"
proof -
  have "(if a < 0 then 1 else 0)
          + (if 0 < precision p
             then length (filter (\<lambda>c. c = CHR ''-'') (decimalSeparatorSymbol p)) else 0)
        = (if b < 0 then (1::nat) else 0)
          + (if 0 < precision p
             then length (filter (\<lambda>c. c = CHR ''-'') (decimalSeparatorSymbol p)) else 0)"
    using minus_count_formatMoney [OF assms(1), of a] minus_count_formatMoney [OF assms(1), of b]
      assms(2)
    by simp
  then show ?thesis by (simp split: if_splits)
qed

lemma format_acc: "format accounting_js p z = acc_formatMoney z (money_opts p)"
  by (simp add: format_def accounting_js_def)

lemma format_p0_num:
  "format_p0 accounting_js p (JNum z)
   = JStr (acc_formatMoney (processedValue accounting_js p (JNum z)) (money_opts p))"
  by (simp add: format_p0_def accounting_js_def)

lemma processedValue_num:
  "processedValue accounting_js p (JNum y)
   = (if \<not> minus_prop p \<and> y < 0 then (if 0 \<le> min_prop p then min_prop p else 0)
      else if y \<le> min_prop p then min_prop p
      else if max_prop p \<le> y then max_prop p
      else y)"
  by (simp add: processedValue_def unformat_def accounting_js_def acc_unformat_def Let_def)

text \<open>Unformatting a formatted value gives the value rounded to the precision.\<close>

lemma unformat_format:
  assumes "round_trip_config p"
  shows "unformat accounting_js p (JStr (acc_formatMoney z (money_opts p)))
         = (if z < 0 then - 1 else 1)
           * (of_nat (nat (round_scaled \<bar>z\<bar> (precision p))) / 10 ^ precision p)"
  using formatMoney_not_empty [OF assms, of z] unformat_formatMoney [OF assms, of z]
  by (simp add: unformat_def accounting_js_def)

lemma unformat_format_zero:
  assumes "round_trip_config p" "round_scaled \<bar>z\<bar> (precision p) = 0"
  shows "unformat accounting_js p (JStr (acc_formatMoney z (money_opts p))) = 0"
  using unformat_format [OF assms(1), of z] assms(2) by simp

lemma round_scaled_zero: "round_scaled \<bar>0\<bar> n = 0"
proof -
  have "\<lfloor>(1::rat) / 2\<rfloor> = 0" by (simp add: floor_eq_iff)
  then show ?thesis by (simp add: round_scaled_def)
qed

text \<open>The round trip in \<open>src/vue-numeric.vue\<close>, and where it fails.\<close>

lemma round_trip_src:
  assumes "round_trip_config p" "0 \<le> x \<or> round_scaled \<bar>x\<bar> (precision p) \<noteq> 0"
  shows "format accounting_js p (unformat accounting_js p (JStr (format accounting_js p x)))
         = format accounting_js p x"
proof -
  define y where "y = acc_unformat (JStr (acc_formatMoney x (money_opts p))) (decimalSeparatorSymbol p)"
  have un: "unformat accounting_js p (JStr (acc_formatMoney x (money_opts p))) = y"
    using formatMoney_not_empty [OF assms(1), of x]
    by (simp add: unformat_def accounting_js_def y_def)
  have sign: "(y < 0) = (x < 0)"
    unfolding y_def using assms by (rule rounded_value(1))
  have rnd: "round_scaled \<bar>y\<bar> (precision p) = round_scaled \<bar>x\<bar> (precision p)"
    unfolding y_def using assms by (rule rounded_value(2))
  have "acc_formatMoney y (money_opts p) = acc_formatMoney x (money_opts p)"
    using sign rnd by (intro formatMoney_cong) (simp_all add: money_opts_sel)
  then show ?thesis by (simp add: format_acc un)
qed

lemma round_trip_src_fails:
  assumes "round_trip_config p" "x < 0" "round_scaled \<bar>x\<bar> (precision p) = 0"
  shows "format accounting_js p (unformat accounting_js p (JStr (format accounting_js p x)))
         \<noteq> format accounting_js p x"
proof
  assume "format accounting_js p (unformat accounting_js p (JStr (format accounting_js p x)))
          = format accounting_js p x"
  then have "acc_formatMoney 0 (money_opts p) = acc_formatMoney x (money_opts p)"
    using unformat_format_zero [OF assms(1,3)] by (simp add: format_acc)
  then have "((0::rat) < 0) = (x < 0)"
    using assms(1) by (intro formatMoney_sign)
  then show False using assms(2) by simp
qed

text \<open>The round trip in the second file, and where it fails.\<close>

lemma round_trip_p0_allowed_sign:
  assumes "round_trip_config p" "min_prop p \<le> x" "x \<le> max_prop p"
    and "0 \<le> x \<or> (minus_prop p \<and> round_scaled \<bar>x\<bar> (precision p) \<noteq> 0)"
  shows "format_p0 accounting_js p
           (JNum (unformat accounting_js p (format_p0 accounting_js p (JNum x))))
         = format_p0 accounting_js p (JNum x)"
proof -
  define s where "s = acc_formatMoney x (money_opts p)"
  define y where "y = acc_unformat (JStr s) (decimalSeparatorSymbol p)"
  have s_ne: "s \<noteq> []"
    unfolding s_def using assms(1) by (rule formatMoney_not_empty)
  have un: "unformat accounting_js p (JStr s) = y"
    using s_ne by (simp add: unformat_def accounting_js_def y_def)
  have h: "0 \<le> x \<or> round_scaled \<bar>x\<bar> (precision p) \<noteq> 0"
    using assms(4) by blast
  have sign: "(y < 0) = (x < 0)"
    unfolding y_def s_def using assms(1) h by (rule rounded_value(1))
  have rnd: "round_scaled \<bar>y\<bar> (precision p) = round_scaled \<bar>x\<bar> (precision p)"
    unfolding y_def s_def using assms(1) h by (rule rounded_value(2))
  have px: "processedValue accounting_js p (JNum x) = x"
    using assms(2,3,4) by (auto simp add: processedValue_num)
  have fx: "format_p0 accounting_js p (JNum x) = JStr s"
    using px by (simp add: format_p0_num s_def)
  define z where "z = processedValue accounting_js p (JNum y)"
  have ym: "0 \<le> y \<or> minus_prop p"
    using sign assms(4) by auto
  have z: "z = (if y \<le> min_prop p then min_prop p else if max_prop p \<le> y then max_prop p else y)"
    unfolding z_def using ym by (auto simp add: processedValue_num)
  have zxy: "min x y \<le> z \<and> z \<le> max x y"
    using z assms(2,3) by (auto simp add: min_def max_def)
  have "(z < 0) = (min x y < 0) \<and> round_scaled \<bar>z\<bar> (precision p) = round_scaled \<bar>min x y\<bar> (precision p)"
  proof (rule round_scaled_between)
    show "min x y \<le> z" "z \<le> max x y" using zxy by simp_all
    show "(min x y < 0) = (max x y < 0)" using sign by (auto simp add: min_def max_def)
    show "round_scaled \<bar>min x y\<bar> (precision p) = round_scaled \<bar>max x y\<bar> (precision p)"
      using rnd by (auto simp add: min_def max_def)
  qed
  then have "(z < 0) = (x < 0)" "round_scaled \<bar>z\<bar> (precision p) = round_scaled \<bar>x\<bar> (precision p)"
    using sign rnd by (auto simp add: min_def split: if_splits)
  then have "acc_formatMoney z (money_opts p) = s"
    unfolding s_def by (intro formatMoney_cong) (simp_all add: money_opts_sel)
  then have "format_p0 accounting_js p (JNum y) = JStr s"
    by (simp add: format_p0_num z_def)
  then show ?thesis using fx un by simp
qed

lemma round_trip_p0_forced_zero:
  assumes "round_trip_config p" "min_prop p \<le> x" "x \<le> max_prop p"
    and "x < 0" "\<not> minus_prop p" "0 \<le> max_prop p"
  shows "format_p0 accounting_js p
           (JNum (unformat accounting_js p (format_p0 accounting_js p (JNum x))))
         = format_p0 accounting_js p (JNum x)"
proof -
  have px: "processedValue accounting_js p (JNum x) = 0"
    using assms(2,4,5) by (auto simp add: processedValue_num)
  have p0: "processedValue accounting_js p (JNum 0) = 0"
    using assms(2,4,6) by (auto simp add: processedValue_num)
  have un: "unformat accounting_js p (JStr (acc_formatMoney 0 (money_opts p))) = 0"
    using assms(1) round_scaled_zero by (rule unformat_format_zero)
  show ?thesis by (simp add: format_p0_num px un p0)
qed

lemma round_trip_p0_negative_max:
  assumes "round_trip_config p" "min_prop p \<le> x" "x \<le> max_prop p"
    and "x < 0" "minus_prop p" "round_scaled \<bar>x\<bar> (precision p) = 0" "max_prop p < 0"
  shows "format_p0 accounting_js p
           (JNum (unformat accounting_js p (format_p0 accounting_js p (JNum x))))
         = format_p0 accounting_js p (JNum x)"
proof -
  have px: "processedValue accounting_js p (JNum x) = x"
    using assms(2,3,5) by (auto simp add: processedValue_num)
  have p0: "processedValue accounting_js p (JNum 0) = max_prop p"
    using assms(2,4,5,7) by (auto simp add: processedValue_num)
  have un: "unformat accounting_js p (JStr (acc_formatMoney x (money_opts p))) = 0"
    using assms(1,6) by (rule unformat_format_zero)
  have "\<bar>max_prop p\<bar> \<le> \<bar>x\<bar>" using assms(3,4,7) by simp
  then have "round_scaled \<bar>max_prop p\<bar> (precision p) \<le> 0"
    using round_scaled_mono [of "\<bar>max_prop p\<bar>" "\<bar>x\<bar>" "precision p"] assms(6) by simp
  moreover have "0 \<le> round_scaled \<bar>max_prop p\<bar> (precision p)"
    by (rule round_scaled_nonneg) simp
  ultimately have "round_scaled \<bar>max_prop p\<bar> (precision p) = round_scaled \<bar>x\<bar> (precision p)"
    using assms(6) by simp
  then have "acc_formatMoney (max_prop p) (money_opts p) = acc_formatMoney x (money_opts p)"
    using assms(4,7) by (intro formatMoney_cong) (simp_all add: money_opts_sel)
  then show ?thesis by (simp add: format_p0_num px un p0)
qed

lemma round_trip_p0_fails:
  assumes "round_trip_config p" "min_prop p \<le> x" "x \<le> max_prop p" "x < 0"
    and "(\<not> minus_prop p \<and> max_prop p < 0)
         \<or> (minus_prop p \<and> round_scaled \<bar>x\<bar> (precision p) = 0 \<and> 0 \<le> max_prop p)"
  shows "format_p0 accounting_js p
           (JNum (unformat accounting_js p (format_p0 accounting_js p (JNum x))))
         \<noteq> format_p0 accounting_js p (JNum x)"
  using assms(5)
proof
  assume c: "\<not> minus_prop p \<and> max_prop p < 0"
  have px: "processedValue accounting_js p (JNum x) = 0"
    using assms(2,4) c by (auto simp add: processedValue_num)
  have p0: "processedValue accounting_js p (JNum 0) = max_prop p"
    using assms(2,4) c by (auto simp add: processedValue_num)
  have un: "unformat accounting_js p (JStr (acc_formatMoney 0 (money_opts p))) = 0"
    using assms(1) round_scaled_zero by (rule unformat_format_zero)
  show ?thesis
  proof
    assume "format_p0 accounting_js p
              (JNum (unformat accounting_js p (format_p0 accounting_js p (JNum x))))
            = format_p0 accounting_js p (JNum x)"
    then have "acc_formatMoney (max_prop p) (money_opts p) = acc_formatMoney 0 (money_opts p)"
      by (simp add: format_p0_num px un p0)
    then have "(max_prop p < 0) = ((0::rat) < 0)"
      using assms(1) by (intro formatMoney_sign)
    then show False using c by simp
  qed
next
  assume c: "minus_prop p \<and> round_scaled \<bar>x\<bar> (precision p) = 0 \<and> 0 \<le> max_prop p"
  have px: "processedValue accounting_js p (JNum x) = x"
    using assms(2,3) c by (auto simp add: processedValue_num)
  have p0: "processedValue accounting_js p (JNum 0) = 0"
    using assms(2,4) c by (auto simp add: processedValue_num)
  have un: "unformat accounting_js p (JStr (acc_formatMoney x (money_opts p))) = 0"
    using assms(1) c by (intro unformat_format_zero) simp_all
  show ?thesis
  proof
    assume "format_p0 accounting_js p
              (JNum (unformat accounting_js p (format_p0 accounting_js p (JNum x))))
            = format_p0 accounting_js p (JNum x)"
    then have "acc_formatMoney 0 (money_opts p) = acc_formatMoney x (money_opts p)"
      by (simp add: format_p0_num px un p0)
    then have "((0::rat) < 0) = (x < 0)"
      using assms(1) by (intro formatMoney_sign)
    then show False using assms(4) by simp
  qed
qed

text \<open>
  The documented configurations can be undone: no override, a shorthand of \<open>,\<close>, \<open>.\<close> or
  \<open>space\<close>, and a symbol without digit, minus sign, point and comma.
\<close>

lemma round_trip_config_shorthand:
  assumes "decimalSeparator p = None" "thousandSeparator p = None"
    and "separator p = '','' \<or> separator p = ''.'' \<or> separator p = ''space''"
    and "\<forall>c\<in>set (currency p). \<not> is_digit c \<and> c \<notin> set ''-.,''"
  shows "round_trip_config p"
proof -
  have nd: "\<not> is_digit (CHR '','')" "\<not> is_digit (CHR ''.'')" "\<not> is_digit (CHR '' '')"
    by (simp_all add: is_digit_def)
  show ?thesis
    using assms nd
    by (auto simp add: round_trip_config_def decimalSeparatorSymbol_def thousandSeparatorSymbol_def
        kept_def)
qed

text \<open>
  Why negative values that round to zero are left out: with \<open>minus\<close> on, \<open>-0.4\<close> is
  formatted as \<open>-0\<close>, which unformats to 0, which is formatted as \<open>0\<close>.
\<close>

lemma negative_zero_not_stable:
  "format accounting_js (default_props\<lparr>minus_prop := True\<rparr>) (- (2 / 5)) = ''-0''
   \<and> unformat accounting_js (default_props\<lparr>minus_prop := True\<rparr>) (JStr ''-0'') = 0
   \<and> format accounting_js (default_props\<lparr>minus_prop := True\<rparr>) 0 = ''0''"
  by code_simp

text \<open>
  C10 says that \<open>format(unformat(format(x))) = format(x)\<close> for every \<open>x\<close> within
  \<open>[min, max]\<close> and every configuration. With a \<open>decimalSeparator\<close> override of \<open>,\<close> and the
  default shorthand both separators are \<open>,\<close>: 1234 is formatted as \<open>1,234\<close>, which
  unformats to 1.234, which is formatted as \<open>1\<close>.
\<close>

theorem format_round_trip_counterexample:
  "min_prop (default_props\<lparr>decimalSeparator := Some '',''\<rparr>) \<le> 1234
   \<and> 1234 \<le> max_prop (default_props\<lparr>decimalSeparator := Some '',''\<rparr>)
   \<and> format accounting_js (default_props\<lparr>decimalSeparator := Some '',''\<rparr>) 1234 = ''1,234''
   \<and> unformat accounting_js (default_props\<lparr>decimalSeparator := Some '',''\<rparr>) (JStr ''1,234'')
      = 1234 / 1000
   \<and> format accounting_js (default_props\<lparr>decimalSeparator := Some '',''\<rparr>) (1234 / 1000) = ''1''
   \<and> format_p0 accounting_js (default_props\<lparr>decimalSeparator := Some '',''\<rparr>)
        (JNum (unformat accounting_js (default_props\<lparr>decimalSeparator := Some '',''\<rparr>)
           (format_p0 accounting_js (default_props\<lparr>decimalSeparator := Some '',''\<rparr>) (JNum 1234))))
      \<noteq> format_p0 accounting_js (default_props\<lparr>decimalSeparator := Some '',''\<rparr>) (JNum 1234)"
  by code_simp

text \<open>
  C10, amended. Let the configuration be one for which formatting can be undone
  (\<open>round_trip_config\<close>) and let \<open>x\<close> be within \<open>[min, max]\<close>. With the reference library,
  \<open>format(unformat(format(x))) = format(x)\<close> holds in \<open>src/vue-numeric.vue\<close> when \<open>x\<close> is
  not negative or its magnitude does not round to zero at the precision, whatever \<open>minus\<close>
  is. It holds in the second file, whose \<open>format\<close> clamps, when \<open>x\<close> is not negative; or
  \<open>minus\<close> is on and the magnitude of \<open>x\<close> does not round to zero or \<open>max\<close> is negative; or
  \<open>minus\<close> is off and \<open>max\<close> is not negative. By \<open>round_trip_src_fails\<close> and
  \<open>round_trip_p0_fails\<close> it fails for every other \<open>x\<close> within \<open>[min, max]\<close>.
\<close>

theorem format_round_trip:
  assumes "round_trip_config p" "min_prop p \<le> x" "x \<le> max_prop p"
  shows "(0 \<le> x \<or> round_scaled \<bar>x\<bar> (precision p) \<noteq> 0 \<longrightarrow>
            format accounting_js p (unformat accounting_js p (JStr (format accounting_js p x)))
            = format accounting_js p x)
         \<and> (0 \<le> x
             \<or> (minus_prop p \<and> (round_scaled \<bar>x\<bar> (precision p) \<noteq> 0 \<or> max_prop p < 0))
             \<or> (\<not> minus_prop p \<and> 0 \<le> max_prop p) \<longrightarrow>
            format_p0 accounting_js p
              (JNum (unformat accounting_js p (format_p0 accounting_js p (JNum x))))
            = format_p0 accounting_js p (JNum x))"
proof (intro conjI impI)
  assume "0 \<le> x \<or> round_scaled \<bar>x\<bar> (precision p) \<noteq> 0"
  with assms(1)
  show "format accounting_js p (unformat accounting_js p (JStr (format accounting_js p x)))
        = format accounting_js p x"
    by (rule round_trip_src)
next
  assume h: "0 \<le> x
             \<or> (minus_prop p \<and> (round_scaled \<bar>x\<bar> (precision p) \<noteq> 0 \<or> max_prop p < 0))
             \<or> (\<not> minus_prop p \<and> 0 \<le> max_prop p)"
  consider (sign) "0 \<le> x \<or> (minus_prop p \<and> round_scaled \<bar>x\<bar> (precision p) \<noteq> 0)"
    | (negmax) "x < 0" "minus_prop p" "round_scaled \<bar>x\<bar> (precision p) = 0" "max_prop p < 0"
    | (zero) "x < 0" "\<not> minus_prop p" "0 \<le> max_prop p"
    using h by fastforce
  then show "format_p0 accounting_js p
               (JNum (unformat accounting_js p (format_p0 accounting_js p (JNum x))))
             = format_p0 accounting_js p (JNum x)"
  proof cases
    case sign
    with assms show ?thesis by (rule round_trip_p0_allowed_sign)
  next
    case negmax
    with assms show ?thesis by (rule round_trip_p0_negative_max)
  next
    case zero
    with assms show ?thesis by (rule round_trip_p0_forced_zero)
  qed
qed

theorem format_round_trip_witness:
  "round_trip_config default_props
   \<and> min_prop default_props \<le> - 5
   \<and> - 5 \<le> max_prop default_props
   \<and> minus_prop default_props = False
   \<and> 0 \<le> max_prop default_props
   \<and> round_scaled \<bar>- 5\<bar> (precision default_props) = 5
   \<and> format accounting_js default_props (- 5) = ''-5''
   \<and> format accounting_js default_props (unformat accounting_js default_props (JStr ''-5''))
      = ''-5''
   \<and> format_p0 accounting_js default_props (JNum (- 5)) = JStr ''0''
   \<and> format_p0 accounting_js default_props
        (JNum (unformat accounting_js default_props (JStr ''0'')))
      = JStr ''0''"
proof -
  have c: "round_trip_config default_props"
    by code_simp
  have lo: "min_prop default_props \<le> - 5" and hi: "- 5 \<le> max_prop default_props"
    by (simp_all add: default_props_def)
  have m: "minus_prop default_props = False" and mx: "0 \<le> max_prop default_props"
    and n: "precision default_props = 0"
    by (simp_all add: default_props_def)
  have r: "round_scaled \<bar>- 5\<bar> (precision default_props) = 5"
    unfolding n by code_simp
  have h1: "0 \<le> (- 5 :: rat) \<or> round_scaled \<bar>- 5\<bar> (precision default_props) \<noteq> 0"
    using r by simp
  have h2: "0 \<le> (- 5 :: rat)
            \<or> (minus_prop default_props
                \<and> (round_scaled \<bar>- 5\<bar> (precision default_props) \<noteq> 0
                     \<or> max_prop default_props < 0))
            \<or> (\<not> minus_prop default_props \<and> 0 \<le> max_prop default_props)"
    using m mx by simp
  have f: "format accounting_js default_props (- 5) = ''-5''"
    by code_simp
  have g: "format_p0 accounting_js default_props (JNum (- 5)) = JStr ''0''"
    by code_simp
  note rt = format_round_trip [OF c lo hi]
  have s1: "format accounting_js default_props
              (unformat accounting_js default_props (JStr ''-5'')) = ''-5''"
    using rt [THEN conjunct1, THEN mp, OF h1] by (simp only: f)
  have s2: "format_p0 accounting_js default_props
              (JNum (unformat accounting_js default_props (JStr ''0''))) = JStr ''0''"
    using rt [THEN conjunct2, THEN mp, OF h2] by (simp only: g)
  show ?thesis
    using c lo hi m mx r f s1 g s2 by (intro conjI)
qed

end
